theory Spec2Isabelle
  imports Main "HOL-Library.Monad_Syntax"
begin

section \<open>JavaScript values\<close>

text \<open>
  The validation-error document, the draft identifier and the \<open>errors\<close> payload of a
  backend response are plain JSON-like JavaScript values. An object is the list of its
  own enumerable properties in the order in which \<open>Object.entries\<close> and \<open>for ... in\<close>
  enumerate them. Numbers are integers (no \<open>NaN\<close>, no fractions). A plain object also
  inherits the properties of \<open>Object.prototype\<close>; they matter where the source indexes
  a plain object with a computed name, in step 2 of \<open>toLabelledErrorMessages\<close>.
\<close>

datatype jsval =
    JUndefined
  | JNull
  | JBool bool
  | JNum int
  | JStr string
  | JArr "jsval list"
  | JObj "(string \<times> jsval) list"

datatype js_error = TypeError

text \<open>\<open>ToBoolean\<close>: what \<open>x ? a : b\<close>, \<open>!x\<close>, \<open>x || y\<close> and \<open>x && y\<close> test.\<close>

fun truthy :: "jsval \<Rightarrow> bool" where
  "truthy JUndefined = False"
| "truthy JNull = False"
| "truthy (JBool b) = b"
| "truthy (JNum n) = (n \<noteq> 0)"
| "truthy (JStr s) = (s \<noteq> [])"
| "truthy (JArr xs) = True"
| "truthy (JObj kvs) = True"

text \<open>\<open>x || y\<close>\<close>

definition js_or :: "jsval \<Rightarrow> jsval \<Rightarrow> jsval" where
  "js_or x y = (if truthy x then x else y)"

text \<open>lodash \<open>isObject\<close>: objects and arrays (and functions), no primitive, not \<open>null\<close>.\<close>

fun isObject :: "jsval \<Rightarrow> bool" where
  "isObject (JArr xs) = True"
| "isObject (JObj kvs) = True"
| "isObject v = False"

text \<open>
  lodash \<open>isEmpty\<close>: \<open>null\<close> and \<open>undefined\<close> are empty; an array or a string is empty
  when its length is zero; an object is empty when it has no own enumerable key; a
  number or a boolean has no own key and is empty.
\<close>

fun isEmpty :: "jsval \<Rightarrow> bool" where
  "isEmpty JUndefined = True"
| "isEmpty JNull = True"
| "isEmpty (JBool b) = True"
| "isEmpty (JNum n) = True"
| "isEmpty (JStr s) = (s = [])"
| "isEmpty (JArr xs) = (xs = [])"
| "isEmpty (JObj kvs) = (kvs = [])"

text \<open>
  \<open>v.name\<close> for the property names the source reads (\<open>metadata\<close>, \<open>files\<close>, \<open>access\<close>,
  \<open>embargo\<close>, \<open>pids\<close>): reading a property of \<open>undefined\<close> or \<open>null\<close> throws a
  \<open>TypeError\<close>; an absent property is \<open>undefined\<close>; arrays and primitives have no
  property of these names.
\<close>

fun getProp :: "jsval \<Rightarrow> string \<Rightarrow> jsval option" where
  "getProp JUndefined k = None"
| "getProp JNull k = None"
| "getProp (JObj kvs) k = (case map_of kvs k of None \<Rightarrow> Some JUndefined | Some v \<Rightarrow> Some v)"
| "getProp v k = Some JUndefined"

text \<open>\<open>v?.name\<close>\<close>

definition getPropOpt :: "jsval \<Rightarrow> string \<Rightarrow> jsval" where
  "getPropOpt v k = (case getProp v k of None \<Rightarrow> JUndefined | Some x \<Rightarrow> x)"

subsection \<open>Decimal index names and property order\<close>

definition digit_char :: "nat \<Rightarrow> char" where
  "digit_char d = ''0123456789'' ! (d mod 10)"

fun showNat :: "nat \<Rightarrow> string" where
  "showNat n = (if n < 10 then [digit_char n] else showNat (n div 10) @ [digit_char n])"

definition isDigit :: "char \<Rightarrow> bool" where
  "isDigit c = (c \<in> set ''0123456789'')"

definition digit_val :: "char \<Rightarrow> nat" where
  "digit_val c = of_char c - of_char (CHR ''0'')"

definition parseNat :: "string \<Rightarrow> nat" where
  "parseNat s = foldl (\<lambda>a c. 10 * a + digit_val c) 0 s"

text \<open>
  An array index is the canonical decimal name of an integer below \<open>2^32 - 1\<close>. The own
  keys of an object are enumerated with the array indices first, in ascending numeric
  order, and then the other names in the order of their creation.
\<close>

definition isArrayIndex :: "string \<Rightarrow> bool" where
  "isArrayIndex s =
     (s \<noteq> [] \<and> list_all isDigit s \<and> (s = ''0'' \<or> hd s \<noteq> CHR ''0'') \<and>
      parseNat s < 4294967295)"

fun insertIndexKey :: "string \<Rightarrow> 'a \<Rightarrow> (string \<times> 'a) list \<Rightarrow> (string \<times> 'a) list" where
  "insertIndexKey k v [] = [(k, v)]"
| "insertIndexKey k v ((k', v') # kvs) =
     (if isArrayIndex k' \<and> parseNat k' < parseNat k
      then (k', v') # insertIndexKey k v kvs
      else (k, v) # (k', v') # kvs)"

text \<open>
  \<open>obj[k] = v\<close>: an existing property keeps its place and takes the new value; a new
  property is put where the enumeration order has it.
\<close>

definition setProp :: "(string \<times> 'a) list \<Rightarrow> string \<Rightarrow> 'a \<Rightarrow> (string \<times> 'a) list" where
  "setProp obj k v =
     (if k \<in> set (map fst obj) then map (\<lambda>(k', v'). if k' = k then (k', v) else (k', v')) obj
      else if isArrayIndex k then insertIndexKey k v obj
      else obj @ [(k, v)])"

text \<open>\<open>Object.fromEntries(entries)\<close>: the properties are created in the order of the entries.\<close>

definition fromEntries :: "(string \<times> 'a) list \<Rightarrow> (string \<times> 'a) list" where
  "fromEntries es = foldl (\<lambda>obj (k, v). setProp obj k v) [] es"

text \<open>
  \<open>Object.entries(v)\<close>: the own enumerable properties of an object; index and element of
  an array; index and character of a string; nothing for a number or a boolean; a
  \<open>TypeError\<close> for \<open>undefined\<close> and \<open>null\<close>.
\<close>

fun Object_entries :: "jsval \<Rightarrow> (string \<times> jsval) list option" where
  "Object_entries JUndefined = None"
| "Object_entries JNull = None"
| "Object_entries (JBool b) = Some []"
| "Object_entries (JNum n) = Some []"
| "Object_entries (JStr s) = Some (zip (map showNat [0..<length s]) (map (\<lambda>c. JStr [c]) s))"
| "Object_entries (JArr xs) = Some (zip (map showNat [0..<length xs]) xs)"
| "Object_entries (JObj kvs) = Some kvs"

section \<open>Error aggregation (components/FormFeedback.js)\<close>

text \<open>\<open>i18next.t\<close> with no translation catalogue loaded: the key itself.\<close>

definition i18next_t :: "string \<Rightarrow> string" where
  "i18next_t s = s"

definition defaultLabels :: "(string \<times> string) list" where
  "defaultLabels =
    [(''files.enabled'', i18next_t ''Files''),
     (''metadata.resource_type'', i18next_t ''Resource type''),
     (''metadata.title'', i18next_t ''Title''),
     (''metadata.additional_titles'', i18next_t ''Additional titles''),
     (''metadata.publication_date'', i18next_t ''Publication date''),
     (''metadata.creators'', i18next_t ''Creators''),
     (''metadata.contributors'', i18next_t ''Contributors''),
     (''metadata.description'', i18next_t ''Description''),
     (''metadata.additional_descriptions'', i18next_t ''Additional descriptions''),
     (''metadata.rights'', i18next_t ''Licenses''),
     (''metadata.languages'', i18next_t ''Languages''),
     (''metadata.dates'', i18next_t ''Dates''),
     (''metadata.version'', i18next_t ''Version''),
     (''metadata.publisher'', i18next_t ''Publisher''),
     (''metadata.related_identifiers'', i18next_t ''Related works''),
     (''metadata.identifiers'', i18next_t ''Alternate identifiers''),
     (''access.embargo.until'', i18next_t ''Embargo until''),
     (''pids.doi'', i18next_t ''DOI''),
     (''pids'', i18next_t ''PIDS'')]"

text \<open>
  The constructor: \<open>this.labels = {...defaultLabels, ...props.labels}\<close>. The argument
  is the list of the properties of \<open>props.labels\<close> (empty when the property is absent).
\<close>

definition constructor_labels :: "(string \<times> string) list \<Rightarrow> (string \<times> string) list" where
  "constructor_labels props_labels = fromEntries (defaultLabels @ props_labels)"

text \<open>
  \<open>renderErrorMessages\<close>. \<open>new Set(messages)\<close> keeps each message once, in the order
  of first insertion; the spread \<open>[...set]\<close> lists it in that order.
\<close>

definition Set_add :: "'a list \<Rightarrow> 'a \<Rightarrow> 'a list" where
  "Set_add s x = (if x \<in> set s then s else s @ [x])"

definition new_Set :: "'a list \<Rightarrow> 'a list" where
  "new_Set xs = foldl Set_add [] xs"

datatype node = Text string | UndefinedNode | Ul "string list"

definition renderErrorMessages :: "string list \<Rightarrow> node" where
  "renderErrorMessages messages =
     (let uniqueMessages = new_Set messages in
      if length uniqueMessages = 1
      then (case messages of [] \<Rightarrow> UndefinedNode | m # ms \<Rightarrow> Text m)
      else Ul uniqueMessages)"

text \<open>
  Modelled from the spec: \<open>leafTraverse\<close> of \<open>lib/utils\<close>, which \<open>toErrorMessages\<close>
  calls and which is not among the sources. The result is the sequence of leaves handed
  to the callback. From the specification of \<open>flattenErrors\<close>: a string is the single
  message; a record with a message field (taken to be a string-valued property
  \<open>message\<close>) gives that field; a mapping or a sequence gives the messages of its
  children in their order; anything else contributes nothing.
\<close>

fun leafTraverse :: "jsval \<Rightarrow> string list" where
  "leafTraverse (JStr s) = [s]"
| "leafTraverse (JArr xs) = concat (map leafTraverse xs)"
| "leafTraverse (JObj kvs) =
     (case map_of kvs ''message'' of
        Some (JStr m) \<Rightarrow> [m]
      | _ \<Rightarrow> concat (map (\<lambda>kv. leafTraverse (snd kv)) kvs))"
| "leafTraverse v = []"

definition toErrorMessages :: "jsval \<Rightarrow> string list" where
  "toErrorMessages errorValue = leafTraverse errorValue"

text \<open>
  Step 0 of \<open>toLabelledErrorMessages\<close>: the object with collapsed first and second
  level keys. \<open>None\<close> is a thrown \<open>TypeError\<close>.
\<close>

definition step0 :: "jsval \<Rightarrow> (string \<times> jsval) list option" where
  "step0 errors = do {
     m \<leftarrow> getProp errors ''metadata'';
     let metadata = js_or m (JObj []);
     metadata_entries \<leftarrow> Object_entries metadata;
     let step0_metadata = map (\<lambda>(key, value). (''metadata.'' @ key, value)) metadata_entries;
     f \<leftarrow> getProp errors ''files'';
     let files = js_or f (JObj []);
     files_entries \<leftarrow> Object_entries files;
     let step0_files = map (\<lambda>(key, value). (''files.'' @ key, value)) files_entries;
     a \<leftarrow> getProp errors ''access'';
     let access = js_or (getPropOpt a ''embargo'') (JObj []);
     access_entries \<leftarrow> Object_entries access;
     let step0_access = map (\<lambda>(key, value). (''access.embargo.'' @ key, value)) access_entries;
     p \<leftarrow> getProp errors ''pids'';
     let pids = js_or p (JObj []);
     step0_pids \<leftarrow>
       (if isObject pids
        then map_option (map (\<lambda>(key, value). (''pids.'' @ key, value))) (Object_entries pids)
        else Some [(''pids'', pids)]);
     Some (fromEntries (step0_metadata @ step0_files @ step0_access @ step0_pids))
   }"

text \<open>Step 1: each error value becomes its array of error messages.\<close>

definition step1 :: "(string \<times> jsval) list \<Rightarrow> (string \<times> string list) list" where
  "step1 s0 = fromEntries (map (\<lambda>(key, value). (key, toErrorMessages value)) s0)"

text \<open>
  \<open>this.labels[key] || 'Unknown field'\<close>. The keys of step 0 contain a dot or are
  \<open>pids\<close>, so none of them names an inherited property of the label table.
\<close>

definition labelOf :: "(string \<times> string) list \<Rightarrow> string \<Rightarrow> string" where
  "labelOf labels key =
     (case map_of labels key of
        None \<Rightarrow> ''Unknown field''
      | Some l \<Rightarrow> if l \<noteq> [] then l else ''Unknown field'')"

text \<open>
  The names that a plain object \<open>{}\<close> inherits from \<open>Object.prototype\<close>. The inherited
  value is a function, and for \<open>__proto__\<close> the prototype object itself: truthy, and
  without a method \<open>concat\<close>.
\<close>

definition Object_prototype_properties :: "string list" where
  "Object_prototype_properties =
     [''constructor'', ''__defineGetter__'', ''__defineSetter__'', ''hasOwnProperty'',
      ''__lookupGetter__'', ''__lookupSetter__'', ''isPrototypeOf'', ''propertyIsEnumerable'',
      ''toString'', ''valueOf'', ''__proto__'', ''toLocaleString'']"

text \<open>
  Step 2: the loop \<open>for (const key in step1)\<close> that groups the messages by label.
  \<open>labelledErrorMessages[label] || []\<close> reads an own property first and then the
  prototype chain: for a label that is not an own property but names an inherited one,
  \<open>messages\<close> is the inherited value and \<open>messages.concat(...)\<close> throws a \<open>TypeError\<close>
  (\<open>None\<close>).
\<close>

fun step2 ::
  "(string \<times> string) list \<Rightarrow> (string \<times> string list) list \<Rightarrow>
   (string \<times> string list) list \<Rightarrow> (string \<times> string list) list option" where
  "step2 labels [] labelledErrorMessages = Some labelledErrorMessages"
| "step2 labels ((key, msgs) # rest) labelledErrorMessages =
     (let label = labelOf labels key in
      case map_of labelledErrorMessages label of
        Some messages \<Rightarrow>
          step2 labels rest (setProp labelledErrorMessages label (messages @ msgs))
      | None \<Rightarrow>
          if label \<in> set Object_prototype_properties then None
          else step2 labels rest (setProp labelledErrorMessages label ([] @ msgs)))"

definition toLabelledErrorMessages ::
  "(string \<times> string) list \<Rightarrow> jsval \<Rightarrow> (string \<times> string list) list option" where
  "toLabelledErrorMessages labels errors = do {
     s0 \<leftarrow> step0 errors;
     step2 labels (step1 s0) []
   }"

section \<open>Lifecycle events (state/types)\<close>

text \<open>
  Modelled from the spec: the event types of \<open>state/types\<close>, a module that is not among
  the sources. These are the constants that \<open>actions/deposit.js\<close> and
  \<open>FormFeedback.js\<close> import from it, taken as pairwise distinct.
\<close>

datatype action_type =
    DISCARD_PID_FAILED
  | DISCARD_PID_STARTED
  | DISCARD_PID_SUCCEEDED
  | DRAFT_DELETE_FAILED
  | DRAFT_DELETE_STARTED
  | DRAFT_FETCHED
  | DRAFT_HAS_VALIDATION_ERRORS
  | DRAFT_PREVIEW_FAILED
  | DRAFT_PREVIEW_STARTED
  | DRAFT_PUBLISH_FAILED
  | DRAFT_PUBLISH_STARTED
  | DRAFT_SAVE_FAILED
  | DRAFT_SAVE_STARTED
  | DRAFT_SAVE_SUCCEEDED
  | DRAFT_SUBMIT_REVIEW_FAILED
  | DRAFT_SUBMIT_REVIEW_STARTED
  | RESERVE_PID_FAILED
  | RESERVE_PID_STARTED
  | RESERVE_PID_SUCCEEDED
  | SET_COMMUNITY
  | FILE_IMPORT_FAILED
  | FILE_UPLOAD_SAVE_DRAFT_FAILED

section \<open>The feedback message (components/FormFeedback.js)\<close>

definition ACTIONS :: "(action_type \<times> string \<times> string) list" where
  "ACTIONS =
    [(DRAFT_SAVE_SUCCEEDED, ''positive'', i18next_t ''Record successfully saved.''),
     (DRAFT_HAS_VALIDATION_ERRORS, ''warning'',
        i18next_t ''Record saved with validation errors:''),
     (DRAFT_SAVE_FAILED, ''negative'',
        i18next_t (''Oops, something went wrong! The draft was not saved. '' @
          ''Please try again. If the problem persists, contact user support.'')),
     (DRAFT_PUBLISH_FAILED, ''negative'',
        i18next_t (''Oops, something went wrong! The draft was not published. '' @
          ''Please try again. If the problem persists, contact user support.'')),
     (DRAFT_SUBMIT_REVIEW_FAILED, ''negative'',
        i18next_t (''Oops, something went wrong! The draft was not submitted for review. '' @
          ''Please try again. If the problem persists, contact user support.'')),
     (DRAFT_DELETE_FAILED, ''negative'',
        i18next_t (''Oops, something went wrong! The draft was not deleted. '' @
          ''Please try again. If the problem persists, contact user support.'')),
     (DRAFT_PREVIEW_FAILED, ''negative'',
        i18next_t (''Oops, something went wrong! The draft cannot be previewed. '' @
          ''Please try again. If the problem persists, contact user support.'')),
     (RESERVE_PID_FAILED, ''negative'',
        i18next_t (''Oops, something went wrong! The identifier was not reserved. '' @
          ''Please try again. If the problem persists, contact user support.'')),
     (DISCARD_PID_FAILED, ''negative'',
        i18next_t (''Oops, something went wrong! The identifier was not discarded. '' @
          ''Please try again. If the problem persists, contact user support.'')),
     (FILE_UPLOAD_SAVE_DRAFT_FAILED, ''negative'',
        i18next_t (''Oops, something went wrong! The draft could not be saved before '' @
          ''uploading the file. Please try again. If the problem persists, '' @
          ''contact user support.'')),
     (FILE_IMPORT_FAILED, ''negative'',
        i18next_t (''Oops, something went wrong! Importing files from the previous draft '' @
          ''version failed. Please try again. If the problem persists, '' @
          ''contact user support.''))]"

text \<open>
  \<open>_get(ACTIONS, actionState, {feedback: undefined, message: undefined})\<close>; the action
  state of the store is an event type, or absent.
\<close>

definition get_ACTIONS :: "action_type option \<Rightarrow> string option \<times> string option" where
  "get_ACTIONS actionState =
     (case actionState of
        None \<Rightarrow> (None, None)
      | Some a \<Rightarrow>
          (case map_of ACTIONS a of
             None \<Rightarrow> (None, None)
           | Some (feedback, message) \<Rightarrow> (Some feedback, Some message)))"

text \<open>
  What \<open>render\<close> returns: \<open>None\<close> for \<open>null\<close>, or the \<open>Message\<close> element with its three
  flags, the message in \<open>strong\<close>, and the \<open>Message.List\<close> of the labelled items when
  there is at least one.
\<close>

record message_element =
  positive :: bool
  warning :: bool
  negative :: bool
  message :: string
  message_list :: "(string \<times> node) list option"

text \<open>
  \<open>render\<close>, from the component's label table and the two properties that
  \<open>mapStateToProps\<close> reads from the store, \<open>deposit.actionState\<close> and \<open>deposit.errors\<close>.
\<close>

definition render ::
  "(string \<times> string) list \<Rightarrow> action_type option \<Rightarrow> jsval \<Rightarrow> js_error + message_element option" where
  "render labels actionState props_errors =
     (let errors = js_or props_errors (JObj []);
          (feedback, message) = get_ACTIONS actionState
      in case message of
           None \<Rightarrow> Inr None
         | Some msg \<Rightarrow>
             if msg = [] then Inr None
             else
               (case toLabelledErrorMessages labels errors of
                  None \<Rightarrow> Inl TypeError
                | Some labelledMessages \<Rightarrow>
                    (let listErrors =
                           map (\<lambda>(label, messages). (label, renderErrorMessages messages))
                             labelledMessages
                     in Inr (Some
                          \<lparr>positive = (feedback = Some ''positive''),
                           warning = (feedback = Some ''warning''),
                           negative = (feedback = Some ''negative''),
                           message = msg,
                           message_list =
                             (if length listErrors > 0 then Some listErrors else None)\<rparr>))))"

section \<open>Draft lifecycle actions (state/actions/deposit.js)\<close>

text \<open>
  The draft handed to an action: its \<open>id\<close>, absent before the first save, and the rest
  of the form values.
\<close>

record draft =
  id' :: "string option"
  form_values :: jsval

text \<open>The server's links of a record; \<open>self_html\<close> is its canonical address.\<close>

record links =
  self_html :: string
  other_links :: "(string \<times> string) list"

record data =
  data_id :: string
  links :: links
  content :: jsval

text \<open>A resolved backend response \<open>{data, errors?}\<close> and a rejection \<open>{errors}\<close>.\<close>

record response =
  data :: data
  errors :: jsval

record rejection =
  rejection_errors :: jsval

record community =
  uuid :: string

record communityState =
  selected :: "community option"
  recordHasInclusionRequest :: bool
  isReviewForSelectedCommunity :: bool

record depositState =
  community :: communityState

datatype payload =
    NoPayload
  | Data data
  | Errors jsval
  | DataErrors data jsval
  | PidType string

record action =
  type :: action_type
  payload :: payload

text \<open>
  The backend service \<open>config.service.drafts\<close>: each call resolves (\<open>Inr\<close>) or rejects
  (\<open>Inl\<close>). No action calls the same method twice, so a method is a function of its
  arguments.
\<close>

record drafts_service =
  service_save :: "draft \<Rightarrow> rejection + response"
  service_read :: "links \<Rightarrow> rejection + response"
  service_publish :: "links \<Rightarrow> rejection + response"
  service_submitReview :: "links \<Rightarrow> rejection + response"
  service_reservePID :: "links \<Rightarrow> string \<Rightarrow> rejection + response"
  service_discardPID :: "links \<Rightarrow> string \<Rightarrow> rejection + response"
  service_createOrUpdateReview :: "links \<Rightarrow> string \<Rightarrow> rejection + unit"
  service_deleteReview :: "links \<Rightarrow> rejection + unit"

text \<open>
  What an action does, in order: the events it dispatches, the backend calls it makes,
  and its changes of the browser's address.
\<close>

datatype backend_call =
    Save draft
  | Read links
  | Publish links
  | SubmitReview links
  | ReservePID links string
  | DiscardPID links string
  | CreateOrUpdateReview links string
  | DeleteReview links

datatype effect =
    Dispatch action
  | Call backend_call
  | History_replaceState string
  | Location_replace string
  | Location_assign string

text \<open>What an action's promise rejects with: a backend rejection, or the response itself.\<close>

datatype thrown =
    Rejected rejection
  | ThrownResponse response
  | ThrownTypeError

text \<open>\<open>draft.id ? true : false\<close>: an absent \<open>id\<close> and the empty string are falsy.\<close>

definition hasAlreadyId :: "draft \<Rightarrow> bool" where
  "hasAlreadyId draft = (case id' draft of None \<Rightarrow> False | Some s \<Rightarrow> s \<noteq> [])"

definition changeURLAfterCreation :: "string \<Rightarrow> effect list" where
  "changeURLAfterCreation draftURL = [History_replaceState draftURL]"

definition saveDraftWithUrlUpdate ::
  "draft \<Rightarrow> drafts_service \<Rightarrow> effect list \<times> (rejection + response)" where
  "saveDraftWithUrlUpdate draft draftsService =
     (case service_save draftsService draft of
        Inl error \<Rightarrow> ([Call (Save draft)], Inl error)
      | Inr response \<Rightarrow>
          if \<not> hasAlreadyId draft
          then (let draftURL = self_html (links (data response))
                in (Call (Save draft) # changeURLAfterCreation draftURL, Inr response))
          else ([Call (Save draft)], Inr response))"

definition shouldDeleteReview :: "communityState \<Rightarrow> bool" where
  "shouldDeleteReview communityState =
     (recordHasInclusionRequest communityState \<and> selected communityState = None)"

definition shouldUpdateReview :: "communityState \<Rightarrow> bool" where
  "shouldUpdateReview communityState =
     (selected communityState \<noteq> None \<and> \<not> isReviewForSelectedCommunity communityState)"

text \<open>The review mutation of \<open>_saveDraft\<close>: the call made and its outcome.\<close>

definition reviewMutation ::
  "drafts_service \<Rightarrow> communityState \<Rightarrow> links \<Rightarrow> effect list \<times> (thrown + unit)" where
  "reviewMutation draftsService communityState draftLinks =
     (if shouldDeleteReview communityState
      then ([Call (DeleteReview draftLinks)],
            (case service_deleteReview draftsService draftLinks of
               Inl error \<Rightarrow> Inl (Rejected error)
             | Inr u \<Rightarrow> Inr ()))
      else if shouldUpdateReview communityState
      then (case selected communityState of
              None \<Rightarrow> ([], Inl ThrownTypeError)
            | Some c \<Rightarrow>
                ([Call (CreateOrUpdateReview draftLinks (uuid c))],
                 (case service_createOrUpdateReview draftsService draftLinks (uuid c) of
                    Inl error \<Rightarrow> Inl (Rejected error)
                  | Inr u \<Rightarrow> Inr ())))
      else ([], Inr ()))"

text \<open>
  \<open>_saveDraft\<close>, the persist routine of \<open>save\<close>, \<open>publish\<close>, \<open>submitReview\<close> and
  \<open>preview\<close>; \<open>dispatchFn\<close> is the trace of effects.
\<close>

definition saveDraft' ::
  "draft \<Rightarrow> drafts_service \<Rightarrow> depositState \<Rightarrow> action_type \<Rightarrow> effect list \<times> (thrown + response)" where
  "saveDraft' draft draftsService depositState failType =
     (case saveDraftWithUrlUpdate draft draftsService of
        (fx, Inl error) \<Rightarrow>
          (fx @ [Dispatch \<lparr>type = failType, payload = Errors (rejection_errors error)\<rparr>],
           Inl (Rejected error))
      | (fx, Inr response) \<Rightarrow>
          (let draftHasValidationErrors = \<not> isEmpty (errors response) in
           if draftHasValidationErrors
           then (fx @ [Dispatch \<lparr>type = DRAFT_HAS_VALIDATION_ERRORS,
                                 payload = DataErrors (data response) (errors response)\<rparr>],
                 Inl (ThrownResponse response))
           else
             (let communityState = community depositState in
              if shouldUpdateReview communityState \<or> shouldDeleteReview communityState
              then
                (let draftWithLinks = data response in
                 case reviewMutation draftsService communityState (links draftWithLinks) of
                   (fx1, Inl e) \<Rightarrow> (fx @ fx1, Inl e)
                 | (fx1, Inr u) \<Rightarrow>
                     (case service_read draftsService (links draftWithLinks) of
                        Inl error \<Rightarrow>
                          (fx @ fx1 @ [Call (Read (links draftWithLinks))], Inl (Rejected error))
                      | Inr response' \<Rightarrow>
                          (fx @ fx1 @ [Call (Read (links draftWithLinks)),
                             Dispatch \<lparr>type = DRAFT_FETCHED, payload = Data (data response')\<rparr>],
                           Inr response')))
              else (fx, Inr response))))"

text \<open>
  The thunks. Each takes what the store and the configuration hand to it:
  \<open>getState().deposit\<close>, read after the first dispatch, and \<open>config.service.drafts\<close>.
\<close>

definition save :: "draft \<Rightarrow> depositState \<Rightarrow> drafts_service \<Rightarrow> effect list \<times> (thrown + unit)" where
  "save draft deposit drafts =
     (let started = Dispatch \<lparr>type = DRAFT_SAVE_STARTED, payload = NoPayload\<rparr> in
      case saveDraft' draft drafts deposit DRAFT_SAVE_FAILED of
        (fx, Inl e) \<Rightarrow> (started # fx, Inl e)
      | (fx, Inr response) \<Rightarrow>
          (started # fx @
             [Dispatch \<lparr>type = DRAFT_SAVE_SUCCEEDED, payload = Data (data response)\<rparr>],
           Inr ()))"

definition publish :: "draft \<Rightarrow> depositState \<Rightarrow> drafts_service \<Rightarrow> effect list \<times> (thrown + unit)" where
  "publish draft deposit drafts =
     (let started = Dispatch \<lparr>type = DRAFT_PUBLISH_STARTED, payload = NoPayload\<rparr> in
      case saveDraft' draft drafts deposit DRAFT_PUBLISH_FAILED of
        (fx, Inl e) \<Rightarrow> (started # fx, Inl e)
      | (fx, Inr response) \<Rightarrow>
          (let draftWithLinks = data response in
           case service_publish drafts (links draftWithLinks) of
             Inr response' \<Rightarrow>
               (let recordURL = self_html (links (data response'))
                in (started # fx @ [Call (Publish (links draftWithLinks)),
                      Location_replace recordURL], Inr ()))
           | Inl error \<Rightarrow>
               (started # fx @ [Call (Publish (links draftWithLinks)),
                  Dispatch \<lparr>type = DRAFT_PUBLISH_FAILED,
                            payload = Errors (rejection_errors error)\<rparr>],
                Inl (Rejected error))))"

definition submitReview :: "draft \<Rightarrow> depositState \<Rightarrow> drafts_service \<Rightarrow> effect list \<times> (thrown + unit)" where
  "submitReview draft deposit drafts =
     (let started = Dispatch \<lparr>type = DRAFT_SUBMIT_REVIEW_STARTED, payload = NoPayload\<rparr> in
      case saveDraft' draft drafts deposit DRAFT_SUBMIT_REVIEW_FAILED of
        (fx, Inl e) \<Rightarrow> (started # fx, Inl e)
      | (fx, Inr response) \<Rightarrow>
          (let draftWithLinks = data response in
           case service_submitReview drafts (links draftWithLinks) of
             Inr response' \<Rightarrow>
               (let requestURL = ''/me/requests/'' @ data_id (data response')
                in (started # fx @ [Call (SubmitReview (links draftWithLinks)),
                      Location_replace requestURL], Inr ()))
           | Inl error \<Rightarrow>
               (started # fx @ [Call (SubmitReview (links draftWithLinks)),
                  Dispatch \<lparr>type = DRAFT_SUBMIT_REVIEW_FAILED,
                            payload = Errors (rejection_errors error)\<rparr>],
                Inl (Rejected error))))"

definition preview :: "draft \<Rightarrow> depositState \<Rightarrow> drafts_service \<Rightarrow> effect list \<times> (thrown + unit)" where
  "preview draft deposit drafts =
     (let started = Dispatch \<lparr>type = DRAFT_PREVIEW_STARTED, payload = NoPayload\<rparr> in
      case saveDraft' draft drafts deposit DRAFT_PREVIEW_FAILED of
        (fx, Inl e) \<Rightarrow> (started # fx, Inl e)
      | (fx, Inr response) \<Rightarrow>
          (started # fx @
             [Location_assign (''/records/'' @
                (case id' draft of None \<Rightarrow> ''undefined'' | Some s \<Rightarrow> s) @ ''?preview=1'')],
           Inr ()))"

definition reservePID :: "draft \<Rightarrow> string \<Rightarrow> drafts_service \<Rightarrow> effect list \<times> (thrown + unit)" where
  "reservePID draft pidType drafts =
     (let started = Dispatch \<lparr>type = RESERVE_PID_STARTED, payload = PidType pidType\<rparr> in
      case saveDraftWithUrlUpdate draft drafts of
        (fx, Inl error) \<Rightarrow>
          (started # fx @
             [Dispatch \<lparr>type = RESERVE_PID_FAILED, payload = Errors (rejection_errors error)\<rparr>],
           Inl (Rejected error))
      | (fx, Inr response) \<Rightarrow>
          (let draftWithLinks = data response in
           case service_reservePID drafts (links draftWithLinks) pidType of
             Inl error \<Rightarrow>
               (started # fx @ [Call (ReservePID (links draftWithLinks) pidType),
                  Dispatch \<lparr>type = RESERVE_PID_FAILED,
                            payload = Errors (rejection_errors error)\<rparr>],
                Inl (Rejected error))
           | Inr response' \<Rightarrow>
               (started # fx @ [Call (ReservePID (links draftWithLinks) pidType),
                  Dispatch \<lparr>type = RESERVE_PID_SUCCEEDED, payload = Data (data response')\<rparr>],
                Inr ())))"

definition discardPID :: "draft \<Rightarrow> string \<Rightarrow> drafts_service \<Rightarrow> effect list \<times> (thrown + unit)" where
  "discardPID draft pidType drafts =
     (let started = Dispatch \<lparr>type = DISCARD_PID_STARTED, payload = PidType pidType\<rparr> in
      case saveDraftWithUrlUpdate draft drafts of
        (fx, Inl error) \<Rightarrow>
          (started # fx @
             [Dispatch \<lparr>type = DISCARD_PID_FAILED, payload = Errors (rejection_errors error)\<rparr>],
           Inl (Rejected error))
      | (fx, Inr response) \<Rightarrow>
          (let draftWithLinks = data response in
           case service_discardPID drafts (links draftWithLinks) pidType of
             Inl error \<Rightarrow>
               (started # fx @ [Call (DiscardPID (links draftWithLinks) pidType),
                  Dispatch \<lparr>type = DISCARD_PID_FAILED,
                            payload = Errors (rejection_errors error)\<rparr>],
                Inl (Rejected error))
           | Inr response' \<Rightarrow>
               (started # fx @ [Call (DiscardPID (links draftWithLinks) pidType),
                  Dispatch \<lparr>type = DISCARD_PID_SUCCEEDED, payload = Data (data response')\<rparr>],
                Inr ())))"

section \<open>Observations on a run\<close>

text \<open>The events dispatched, the backend calls made and the addresses set, each in order.\<close>

fun dispatched :: "effect list \<Rightarrow> action list" where
  "dispatched [] = []"
| "dispatched (Dispatch a # fx) = a # dispatched fx"
| "dispatched (e # fx) = dispatched fx"

fun calls :: "effect list \<Rightarrow> backend_call list" where
  "calls [] = []"
| "calls (Call c # fx) = c # calls fx"
| "calls (e # fx) = calls fx"

fun addresses :: "effect list \<Rightarrow> string list" where
  "addresses [] = []"
| "addresses (History_replaceState u # fx) = u # addresses fx"
| "addresses (e # fx) = addresses fx"

definition dispatchedOf :: "action_type \<Rightarrow> effect list \<Rightarrow> action list" where
  "dispatchedOf t fx = filter (\<lambda>a. type a = t) (dispatched fx)"

fun isReviewMutation :: "backend_call \<Rightarrow> bool" where
  "isReviewMutation (CreateOrUpdateReview l c) = True"
| "isReviewMutation (DeleteReview l) = True"
| "isReviewMutation c = False"

fun isRead :: "backend_call \<Rightarrow> bool" where
  "isRead (Read l) = True"
| "isRead c = False"

fun isDeleteReview :: "backend_call \<Rightarrow> bool" where
  "isDeleteReview (DeleteReview l) = True"
| "isDeleteReview c = False"

fun isCreateOrUpdateReview :: "backend_call \<Rightarrow> bool" where
  "isCreateOrUpdateReview (CreateOrUpdateReview l c) = True"
| "isCreateOrUpdateReview c = False"

text \<open>
  The immediate children of a section value as \<open>toLabelledErrorMessages\<close> enumerates
  them, \<open>Object.entries(value || {})\<close>: none when the value is absent or falsy.
\<close>

definition children :: "jsval \<Rightarrow> (string \<times> jsval) list" where
  "children v = (case Object_entries (js_or v (JObj [])) of None \<Rightarrow> [] | Some es \<Rightarrow> es)"

text \<open>
  The dotted entries as the specification of \<open>labelErrors\<close> describes them, to be
  compared with \<open>step0\<close>: the children of \<open>metadata\<close>, \<open>files\<close>, \<open>access.embargo\<close> and
  \<open>pids\<close>, each under the section name, a dot and the child's key; a \<open>pids\<close> value that
  is a truthy primitive is the single entry \<open>pids\<close>.
\<close>

definition spec_dotted_entries :: "jsval \<Rightarrow> (string \<times> jsval) list" where
  "spec_dotted_entries doc =
     map (\<lambda>(key, value). (''metadata.'' @ key, value)) (children (getPropOpt doc ''metadata'')) @
     map (\<lambda>(key, value). (''files.'' @ key, value)) (children (getPropOpt doc ''files'')) @
     map (\<lambda>(key, value). (''access.embargo.'' @ key, value))
       (children (getPropOpt (getPropOpt doc ''access'') ''embargo'')) @
     (if truthy (getPropOpt doc ''pids'') \<and> \<not> isObject (getPropOpt doc ''pids'')
      then [(''pids'', getPropOpt doc ''pids'')]
      else map (\<lambda>(key, value). (''pids.'' @ key, value)) (children (getPropOpt doc ''pids'')))"

section \<open>Example collaborators\<close>

text \<open>Concrete drafts, responses and backends on which the theorems below are run.\<close>

definition example_links :: links where
  "example_links = \<lparr>self_html = ''/uploads/abcde-12345'', other_links = []\<rparr>"

definition example_data :: data where
  "example_data = \<lparr>data_id = ''abcde-12345'', links = example_links, content = JObj []\<rparr>"

definition clean_response :: response where
  "clean_response = \<lparr>data = example_data, errors = JUndefined\<rparr>"

definition invalid_response :: response where
  "invalid_response =
     \<lparr>data = example_data,
      errors = JObj [(''metadata'',
                 JObj [(''title'', JArr [JStr ''Missing data for required field.''])])]\<rparr>"

text \<open>What a later \<open>read\<close> returns: the draft with its review linked.\<close>

definition refreshed_data :: data where
  "refreshed_data =
     \<lparr>data_id = ''abcde-12345'', links = example_links,
      content = JObj [(''parent'', JObj [(''review'', JStr ''r-1'')])]\<rparr>"

definition refreshed_response :: response where
  "refreshed_response = \<lparr>data = refreshed_data, errors = JUndefined\<rparr>"

definition network_error :: rejection where
  "network_error = \<lparr>rejection_errors = JObj [(''message'', JStr ''Network Error'')]\<rparr>"

definition new_draft :: draft where
  "new_draft = \<lparr>id' = None, form_values = JObj []\<rparr>"

definition saved_draft :: draft where
  "saved_draft = \<lparr>id' = Some ''abcde-12345'', form_values = JObj []\<rparr>"

text \<open>
  A backend whose \<open>save\<close> and whose two identifier calls have the given outcomes, and
  whose other calls resolve.
\<close>

definition backend :: "rejection + response \<Rightarrow> rejection + response \<Rightarrow> drafts_service" where
  "backend saved pid =
     \<lparr>service_save = (\<lambda>d. saved),
      service_read = (\<lambda>l. Inr refreshed_response),
      service_publish = (\<lambda>l. Inr clean_response),
      service_submitReview = (\<lambda>l. Inr clean_response),
      service_reservePID = (\<lambda>l t. pid),
      service_discardPID = (\<lambda>l t. pid),
      service_createOrUpdateReview = (\<lambda>l c. Inr ()),
      service_deleteReview = (\<lambda>l. Inr ())\<rparr>"

text \<open>
  A backend whose \<open>save\<close> resolves without validation errors, and whose review calls
  and whose \<open>read\<close> have the given outcomes.
\<close>

definition review_backend :: "rejection + unit \<Rightarrow> rejection + response \<Rightarrow> drafts_service" where
  "review_backend reviewed fetched =
     \<lparr>service_save = (\<lambda>d. Inr clean_response),
      service_read = (\<lambda>l. fetched),
      service_publish = (\<lambda>l. Inr clean_response),
      service_submitReview = (\<lambda>l. Inr clean_response),
      service_reservePID = (\<lambda>l t. Inr clean_response),
      service_discardPID = (\<lambda>l t. Inr clean_response),
      service_createOrUpdateReview = (\<lambda>l c. reviewed),
      service_deleteReview = (\<lambda>l. reviewed)\<rparr>"

definition deposit_of :: "community option \<Rightarrow> bool \<Rightarrow> bool \<Rightarrow> depositState" where
  "deposit_of sel req same =
     \<lparr>community = \<lparr>selected = sel, recordHasInclusionRequest = req,
                    isReviewForSelectedCommunity = same\<rparr>\<rparr>"

section \<open>Traces of the shared persist routines\<close>

lemma dispatched_append: "dispatched (xs @ ys) = dispatched xs @ dispatched ys"
  by (induction xs rule: dispatched.induct) simp_all

lemma calls_append: "calls (xs @ ys) = calls xs @ calls ys"
  by (induction xs rule: calls.induct) simp_all

lemma addresses_append: "addresses (xs @ ys) = addresses xs @ addresses ys"
  by (induction xs rule: addresses.induct) simp_all

lemma saveDraftWithUrlUpdate_rejected:
  "service_save drafts draft = Inl e \<Longrightarrow>
   saveDraftWithUrlUpdate draft drafts = ([Call (Save draft)], Inl e)"
  by (simp add: saveDraftWithUrlUpdate_def)

lemma saveDraftWithUrlUpdate_resolved:
  "service_save drafts draft = Inr r \<Longrightarrow>
   saveDraftWithUrlUpdate draft drafts =
     (Call (Save draft) #
        (if hasAlreadyId draft then [] else [History_replaceState (self_html (links (data r)))]),
      Inr r)"
  by (simp add: saveDraftWithUrlUpdate_def changeURLAfterCreation_def)

lemma saveDraftWithUrlUpdate_calls:
  "calls (fst (saveDraftWithUrlUpdate draft drafts)) = [Save draft]"
  by (cases "service_save drafts draft")
     (simp_all add: saveDraftWithUrlUpdate_rejected saveDraftWithUrlUpdate_resolved)

lemma saveDraftWithUrlUpdate_dispatched:
  "dispatched (fst (saveDraftWithUrlUpdate draft drafts)) = []"
  by (cases "service_save drafts draft")
     (simp_all add: saveDraftWithUrlUpdate_rejected saveDraftWithUrlUpdate_resolved)

text \<open>
  Claim C9. When the backend save resolves, \<open>saveDraftWithUrlUpdate\<close> makes the one
  \<open>save\<close> call and returns the response unchanged; for a draft without \<open>id\<close> it
  replaces the browser's address, once, with \<open>data.links.self_html\<close> of the response,
  and for a draft that carries an identifier it leaves the address alone: the save call
  is then its only effect, with no change of the history or of the location. In every
  case the address is replaced exactly when the test \<open>draft.id ? true : false\<close> fails.
\<close>

theorem url_replaced_only_on_creation:
  assumes "service_save drafts draft = Inr r"
  shows "snd (saveDraftWithUrlUpdate draft drafts) = Inr r \<and>
         calls (fst (saveDraftWithUrlUpdate draft drafts)) = [Save draft] \<and>
         (id' draft = None \<longrightarrow>
            addresses (fst (saveDraftWithUrlUpdate draft drafts)) = [self_html (links (data r))]) \<and>
         (\<forall>s. id' draft = Some s \<and> s \<noteq> [] \<longrightarrow>
            addresses (fst (saveDraftWithUrlUpdate draft drafts)) = []) \<and>
         addresses (fst (saveDraftWithUrlUpdate draft drafts)) =
           (if hasAlreadyId draft then [] else [self_html (links (data r))]) \<and>
         (id' draft = None \<longrightarrow>
            fst (saveDraftWithUrlUpdate draft drafts) =
              [Call (Save draft), History_replaceState (self_html (links (data r)))]) \<and>
         (\<forall>s. id' draft = Some s \<and> s \<noteq> [] \<longrightarrow>
            fst (saveDraftWithUrlUpdate draft drafts) = [Call (Save draft)]) \<and>
         fst (saveDraftWithUrlUpdate draft drafts) =
           (if hasAlreadyId draft then [Call (Save draft)]
            else [Call (Save draft), History_replaceState (self_html (links (data r)))])"
  using assms by (auto simp: saveDraftWithUrlUpdate_resolved hasAlreadyId_def)

theorem url_replaced_only_on_creation_witness:
  "service_save (backend (Inr clean_response) (Inr clean_response)) new_draft = Inr clean_response \<and>
   id' new_draft = None \<and>
   saveDraftWithUrlUpdate new_draft (backend (Inr clean_response) (Inr clean_response)) =
     ([Call (Save new_draft), History_replaceState ''/uploads/abcde-12345''], Inr clean_response) \<and>
   addresses (fst (saveDraftWithUrlUpdate new_draft (backend (Inr clean_response) (Inr clean_response)))) =
     [''/uploads/abcde-12345''] \<and>
   id' saved_draft = Some ''abcde-12345'' \<and>
   addresses (fst (saveDraftWithUrlUpdate saved_draft (backend (Inr clean_response) (Inr clean_response)))) = [] \<and>
   snd (saveDraftWithUrlUpdate saved_draft (backend (Inr clean_response) (Inr clean_response))) =
     Inr clean_response \<and>
   saveDraftWithUrlUpdate saved_draft (backend (Inr clean_response) (Inr clean_response)) =
     ([Call (Save saved_draft)], Inr clean_response)"
  using url_replaced_only_on_creation
      [of "backend (Inr clean_response) (Inr clean_response)" new_draft clean_response]
    url_replaced_only_on_creation
      [of "backend (Inr clean_response) (Inr clean_response)" saved_draft clean_response]
  by (simp add: backend_def new_draft_def saved_draft_def clean_response_def example_data_def
      example_links_def saveDraftWithUrlUpdate_def hasAlreadyId_def changeURLAfterCreation_def)

lemma saveDraft'_rejected:
  "service_save drafts draft = Inl e \<Longrightarrow>
   saveDraft' draft drafts deposit failType =
     ([Call (Save draft), Dispatch \<lparr>type = failType, payload = Errors (rejection_errors e)\<rparr>],
      Inl (Rejected e))"
  by (simp add: saveDraft'_def saveDraftWithUrlUpdate_rejected)

lemma saveDraft'_validation_errors:
  "service_save drafts draft = Inr r \<Longrightarrow> \<not> isEmpty (errors r) \<Longrightarrow>
   saveDraft' draft drafts deposit failType =
     (fst (saveDraftWithUrlUpdate draft drafts) @
        [Dispatch \<lparr>type = DRAFT_HAS_VALIDATION_ERRORS,
                  payload = DataErrors (data r) (errors r)\<rparr>],
      Inl (ThrownResponse r))"
  by (simp add: saveDraft'_def saveDraftWithUrlUpdate_resolved)

text \<open>
  Claim C2. When the backend save rejects with an error, \<open>save\<close> dispatches, after
  \<open>DRAFT_SAVE_STARTED\<close>, exactly one event: \<open>DRAFT_SAVE_FAILED\<close> with the payload
  \<open>{errors: error.errors}\<close>. No \<open>DRAFT_SAVE_SUCCEEDED\<close>, \<open>DRAFT_HAS_VALIDATION_ERRORS\<close>
  or \<open>DRAFT_FETCHED\<close> is dispatched, and the promise rejects with that same error.
\<close>

theorem save_backend_rejection:
  assumes "service_save drafts draft = Inl e"
  shows "dispatched (fst (save draft deposit drafts)) =
           [\<lparr>type = DRAFT_SAVE_STARTED, payload = NoPayload\<rparr>,
            \<lparr>type = DRAFT_SAVE_FAILED, payload = Errors (rejection_errors e)\<rparr>] \<and>
         dispatchedOf DRAFT_SAVE_FAILED (fst (save draft deposit drafts)) =
           [\<lparr>type = DRAFT_SAVE_FAILED, payload = Errors (rejection_errors e)\<rparr>] \<and>
         dispatchedOf DRAFT_SAVE_SUCCEEDED (fst (save draft deposit drafts)) = [] \<and>
         dispatchedOf DRAFT_HAS_VALIDATION_ERRORS (fst (save draft deposit drafts)) = [] \<and>
         dispatchedOf DRAFT_FETCHED (fst (save draft deposit drafts)) = [] \<and>
         snd (save draft deposit drafts) = Inl (Rejected e)"
  using assms by (simp add: save_def saveDraft'_rejected dispatchedOf_def)

theorem save_backend_rejection_witness:
  "service_save (backend (Inl network_error) (Inr clean_response)) saved_draft = Inl network_error \<and>
   save saved_draft (deposit_of None False False) (backend (Inl network_error) (Inr clean_response)) =
     ([Dispatch \<lparr>type = DRAFT_SAVE_STARTED, payload = NoPayload\<rparr>,
       Call (Save saved_draft),
       Dispatch \<lparr>type = DRAFT_SAVE_FAILED,
                 payload = Errors (JObj [(''message'', JStr ''Network Error'')])\<rparr>],
      Inl (Rejected network_error))"
  using save_backend_rejection
      [of "backend (Inl network_error) (Inr clean_response)" saved_draft network_error
          "deposit_of None False False"]
  by (simp add: backend_def network_error_def save_def saveDraft'_def saveDraftWithUrlUpdate_def)

text \<open>
  Claim C1. When the backend save resolves with a response whose \<open>errors\<close> payload is
  not empty, \<open>save\<close> dispatches exactly one \<open>DRAFT_HAS_VALIDATION_ERRORS\<close> event, carrying
  the data and the errors of the response, and no \<open>DRAFT_SAVE_SUCCEEDED\<close>; the only
  backend call is the save itself (no \<open>deleteReview\<close>, \<open>createOrUpdateReview\<close> or
  \<open>read\<close>); and the promise rejects, with the response.
\<close>

theorem save_soft_validation_failure:
  assumes "service_save drafts draft = Inr r" and "\<not> isEmpty (errors r)"
  shows "dispatchedOf DRAFT_HAS_VALIDATION_ERRORS (fst (save draft deposit drafts)) =
           [\<lparr>type = DRAFT_HAS_VALIDATION_ERRORS, payload = DataErrors (data r) (errors r)\<rparr>] \<and>
         dispatchedOf DRAFT_SAVE_SUCCEEDED (fst (save draft deposit drafts)) = [] \<and>
         dispatched (fst (save draft deposit drafts)) =
           [\<lparr>type = DRAFT_SAVE_STARTED, payload = NoPayload\<rparr>,
            \<lparr>type = DRAFT_HAS_VALIDATION_ERRORS, payload = DataErrors (data r) (errors r)\<rparr>] \<and>
         calls (fst (save draft deposit drafts)) = [Save draft] \<and>
         filter isReviewMutation (calls (fst (save draft deposit drafts))) = [] \<and>
         filter isRead (calls (fst (save draft deposit drafts))) = [] \<and>
         snd (save draft deposit drafts) = Inl (ThrownResponse r)"
  using assms
  by (simp add: save_def saveDraft'_validation_errors dispatchedOf_def dispatched_append
      calls_append saveDraftWithUrlUpdate_calls saveDraftWithUrlUpdate_dispatched)

theorem save_soft_validation_failure_witness:
  "service_save (backend (Inr invalid_response) (Inr clean_response)) saved_draft =
     Inr invalid_response \<and>
   \<not> isEmpty (errors invalid_response) \<and>
   save saved_draft (deposit_of (Some \<lparr>uuid = ''c-1''\<rparr>) False False)
        (backend (Inr invalid_response) (Inr clean_response)) =
     ([Dispatch \<lparr>type = DRAFT_SAVE_STARTED, payload = NoPayload\<rparr>,
       Call (Save saved_draft),
       Dispatch \<lparr>type = DRAFT_HAS_VALIDATION_ERRORS,
                 payload = DataErrors example_data (errors invalid_response)\<rparr>],
      Inl (ThrownResponse invalid_response))"
  using save_soft_validation_failure
      [of "backend (Inr invalid_response) (Inr clean_response)" saved_draft invalid_response
          "deposit_of (Some \<lparr>uuid = ''c-1''\<rparr>) False False"]
  by (simp add: backend_def invalid_response_def save_def saveDraft'_def
      saveDraftWithUrlUpdate_def hasAlreadyId_def saved_draft_def)

lemma saveDraft'_persisted:
  assumes "saveDraftWithUrlUpdate draft drafts = (pre, Inr r)" and "isEmpty (errors r)"
  shows "saveDraft' draft drafts deposit failType =
     (if shouldUpdateReview (community deposit) \<or> shouldDeleteReview (community deposit)
      then
        (case reviewMutation drafts (community deposit) (links (data r)) of
           (fx1, Inl e) \<Rightarrow> (pre @ fx1, Inl e)
         | (fx1, Inr u) \<Rightarrow>
             (case service_read drafts (links (data r)) of
                Inl error \<Rightarrow>
                  (pre @ fx1 @ [Call (Read (links (data r)))], Inl (Rejected error))
              | Inr response' \<Rightarrow>
                  (pre @ fx1 @
                     [Call (Read (links (data r))),
                      Dispatch \<lparr>type = DRAFT_FETCHED, payload = Data (data response')\<rparr>],
                   Inr response')))
      else (pre, Inr r))"
  using assms by (simp add: saveDraft'_def Let_def)

lemma saveDraftWithUrlUpdate_pre:
  assumes "service_save drafts draft = Inr r"
  obtains pre where "saveDraftWithUrlUpdate draft drafts = (pre, Inr r)"
    and "calls pre = [Save draft]" and "dispatched pre = []"
  using assms by (simp add: saveDraftWithUrlUpdate_resolved)

lemma reviewMutation_update:
  assumes "selected cs = Some c" and "\<not> isReviewForSelectedCommunity cs"
  shows "reviewMutation drafts cs l =
     ([Call (CreateOrUpdateReview l (uuid c))],
      (case service_createOrUpdateReview drafts l (uuid c) of
         Inl error \<Rightarrow> Inl (Rejected error) | Inr u \<Rightarrow> Inr ()))"
  using assms by (simp add: reviewMutation_def shouldDeleteReview_def shouldUpdateReview_def)

lemma reviewMutation_delete:
  assumes "selected cs = None" and "recordHasInclusionRequest cs"
  shows "reviewMutation drafts cs l =
     ([Call (DeleteReview l)],
      (case service_deleteReview drafts l of
         Inl error \<Rightarrow> Inl (Rejected error) | Inr u \<Rightarrow> Inr ()))"
  using assms by (simp add: reviewMutation_def shouldDeleteReview_def)

lemma reviewMutation_cases:
  assumes "shouldUpdateReview cs \<or> shouldDeleteReview cs"
  shows "\<exists>m res. isReviewMutation m \<and> reviewMutation drafts cs l = ([Call m], res)"
proof (cases "selected cs")
  case None
  with assms have "recordHasInclusionRequest cs"
    by (simp add: shouldDeleteReview_def shouldUpdateReview_def)
  with None show ?thesis by (simp add: reviewMutation_delete)
next
  case (Some c)
  with assms have "\<not> isReviewForSelectedCommunity cs"
    by (simp add: shouldDeleteReview_def shouldUpdateReview_def)
  with Some show ?thesis by (simp add: reviewMutation_update)
qed

lemma review_conditions_disjoint: "\<not> (shouldDeleteReview cs \<and> shouldUpdateReview cs)"
  by (auto simp: shouldDeleteReview_def shouldUpdateReview_def)

text \<open>The calls of the shared persist routine, in every case.\<close>

lemma saveDraft'_calls:
  "calls (fst (saveDraft' draft drafts deposit failType)) = [Save draft] \<or>
   (\<exists>m. isReviewMutation m \<and>
      (calls (fst (saveDraft' draft drafts deposit failType)) = [Save draft, m] \<or>
       calls (fst (saveDraft' draft drafts deposit failType)) =
         [Save draft, m, Read (links (data (projr (service_save drafts draft))))]))"
proof (cases "service_save drafts draft")
  case (Inl e)
  then show ?thesis by (simp add: saveDraft'_rejected)
next
  case (Inr r)
  show ?thesis
  proof (cases "isEmpty (errors r)")
    case False
    with Inr show ?thesis
      by (simp add: saveDraft'_validation_errors calls_append saveDraftWithUrlUpdate_calls)
  next
    case True
    show ?thesis
    proof (cases "shouldUpdateReview (community deposit) \<or> shouldDeleteReview (community deposit)")
      case False
      with Inr True show ?thesis
        by (elim saveDraftWithUrlUpdate_pre) (simp add: saveDraft'_persisted)
    next
      case mut: True
      then obtain m res where m: "isReviewMutation m"
        and rm: "reviewMutation drafts (community deposit) (links (data r)) = ([Call m], res)"
        using reviewMutation_cases by blast
      from Inr obtain pre where pre: "saveDraftWithUrlUpdate draft drafts = (pre, Inr r)"
        and cp: "calls pre = [Save draft]"
        by (rule saveDraftWithUrlUpdate_pre)
      show ?thesis
        using Inr True mut m rm cp
        by (cases res; cases "service_read drafts (links (data r))")
           (simp_all add: saveDraft'_persisted [OF pre True] calls_append)
    qed
  qed
qed

lemma isReviewMutation_not_isRead: "isReviewMutation m \<Longrightarrow> \<not> isRead m"
  by (cases m) simp_all

lemma not_delete_and_update: "\<not> (isDeleteReview m \<and> isCreateOrUpdateReview m)"
  by (cases m) simp_all

text \<open>
  Claim C10. The condition for deleting the review and the condition for creating or
  updating it exclude each other for every community selection state, and one run of
  the persist routine makes at most one review mutation and at most one re-fetch, never
  both a \<open>deleteReview\<close> and a \<open>createOrUpdateReview\<close> call.
\<close>

theorem review_mutations_exclusive:
  "\<not> (shouldDeleteReview cs \<and> shouldUpdateReview cs) \<and>
   length (filter isReviewMutation (calls (fst (saveDraft' draft drafts deposit failType)))) \<le> 1 \<and>
   length (filter isRead (calls (fst (saveDraft' draft drafts deposit failType)))) \<le> 1 \<and>
   \<not> (\<exists>a b. isDeleteReview a \<and> isCreateOrUpdateReview b \<and>
          a \<in> set (calls (fst (saveDraft' draft drafts deposit failType))) \<and>
          b \<in> set (calls (fst (saveDraft' draft drafts deposit failType))))"
proof -
  let ?cs = "calls (fst (saveDraft' draft drafts deposit failType))"
  let ?l = "links (data (projr (service_save drafts draft)))"
  consider "?cs = [Save draft]"
    | m where "isReviewMutation m" "?cs = [Save draft, m]"
    | m where "isReviewMutation m" "?cs = [Save draft, m, Read ?l]"
    using saveDraft'_calls [of draft drafts deposit failType] by blast
  then have "length (filter isReviewMutation ?cs) \<le> 1 \<and> length (filter isRead ?cs) \<le> 1 \<and>
    \<not> (\<exists>a b. isDeleteReview a \<and> isCreateOrUpdateReview b \<and> a \<in> set ?cs \<and> b \<in> set ?cs)"
  proof cases
    case 1
    then show ?thesis by simp
  next
    case (2 m)
    then show ?thesis
      using isReviewMutation_not_isRead [of m] not_delete_and_update [of m] by auto
  next
    case (3 m)
    then show ?thesis
      using isReviewMutation_not_isRead [of m] not_delete_and_update [of m] by auto
  qed
  with review_conditions_disjoint [of cs] show ?thesis by blast
qed

lemma saveDraft'_update:
  assumes pre: "saveDraftWithUrlUpdate draft drafts = (pre, Inr r)" and valid: "isEmpty (errors r)"
    and sel: "selected (community deposit) = Some c"
    and other: "\<not> isReviewForSelectedCommunity (community deposit)"
  shows "saveDraft' draft drafts deposit failType =
     (case service_createOrUpdateReview drafts (links (data r)) (uuid c) of
        Inl e \<Rightarrow> (pre @ [Call (CreateOrUpdateReview (links (data r)) (uuid c))], Inl (Rejected e))
      | Inr u \<Rightarrow>
          (case service_read drafts (links (data r)) of
             Inl e \<Rightarrow>
               (pre @ [Call (CreateOrUpdateReview (links (data r)) (uuid c)),
                       Call (Read (links (data r)))], Inl (Rejected e))
           | Inr r' \<Rightarrow>
               (pre @ [Call (CreateOrUpdateReview (links (data r)) (uuid c)),
                       Call (Read (links (data r))),
                       Dispatch \<lparr>type = DRAFT_FETCHED, payload = Data (data r')\<rparr>], Inr r')))"
proof -
  have "shouldUpdateReview (community deposit)"
    using sel other by (simp add: shouldUpdateReview_def)
  then show ?thesis
    by (simp add: saveDraft'_persisted [OF pre valid] reviewMutation_update [OF sel other]
        split: sum.splits)
qed

lemma saveDraft'_delete:
  assumes pre: "saveDraftWithUrlUpdate draft drafts = (pre, Inr r)" and valid: "isEmpty (errors r)"
    and sel: "selected (community deposit) = None"
    and req: "recordHasInclusionRequest (community deposit)"
  shows "saveDraft' draft drafts deposit failType =
     (case service_deleteReview drafts (links (data r)) of
        Inl e \<Rightarrow> (pre @ [Call (DeleteReview (links (data r)))], Inl (Rejected e))
      | Inr u \<Rightarrow>
          (case service_read drafts (links (data r)) of
             Inl e \<Rightarrow>
               (pre @ [Call (DeleteReview (links (data r))),
                       Call (Read (links (data r)))], Inl (Rejected e))
           | Inr r' \<Rightarrow>
               (pre @ [Call (DeleteReview (links (data r))),
                       Call (Read (links (data r))),
                       Dispatch \<lparr>type = DRAFT_FETCHED, payload = Data (data r')\<rparr>], Inr r')))"
proof -
  have "shouldDeleteReview (community deposit)"
    using sel req by (simp add: shouldDeleteReview_def)
  then show ?thesis
    by (simp add: saveDraft'_persisted [OF pre valid] reviewMutation_delete [OF sel req]
        split: sum.splits)
qed

lemma saveDraft'_no_review:
  assumes pre: "saveDraftWithUrlUpdate draft drafts = (pre, Inr r)" and valid: "isEmpty (errors r)"
    and "\<not> (selected (community deposit) \<noteq> None \<and>
            \<not> isReviewForSelectedCommunity (community deposit))"
    and "\<not> (selected (community deposit) = None \<and> recordHasInclusionRequest (community deposit))"
  shows "saveDraft' draft drafts deposit failType = (pre, Inr r)"
  using assms(3,4)
  by (auto simp: saveDraft'_persisted [OF pre valid] shouldUpdateReview_def shouldDeleteReview_def)

text \<open>The four actions that persist through \<open>_saveDraft\<close> run it right after their first event.\<close>

lemma save_runs_saveDraft':
  "\<exists>rest. fst (save draft deposit drafts) =
      Dispatch \<lparr>type = DRAFT_SAVE_STARTED, payload = NoPayload\<rparr> #
      fst (saveDraft' draft drafts deposit DRAFT_SAVE_FAILED) @ rest"
proof (cases "saveDraft' draft drafts deposit DRAFT_SAVE_FAILED")
  case (Pair fx res)
  then show ?thesis by (cases res) (simp_all add: save_def)
qed

lemma publish_runs_saveDraft':
  "\<exists>rest. fst (publish draft deposit drafts) =
      Dispatch \<lparr>type = DRAFT_PUBLISH_STARTED, payload = NoPayload\<rparr> #
      fst (saveDraft' draft drafts deposit DRAFT_PUBLISH_FAILED) @ rest"
proof (cases "saveDraft' draft drafts deposit DRAFT_PUBLISH_FAILED")
  case (Pair fx res)
  show ?thesis
  proof (cases res)
    case (Inl e)
    with Pair show ?thesis by (simp add: publish_def)
  next
    case (Inr response)
    with Pair show ?thesis
      by (cases "service_publish drafts (links (data response))") (simp_all add: publish_def)
  qed
qed

lemma submitReview_runs_saveDraft':
  "\<exists>rest. fst (submitReview draft deposit drafts) =
      Dispatch \<lparr>type = DRAFT_SUBMIT_REVIEW_STARTED, payload = NoPayload\<rparr> #
      fst (saveDraft' draft drafts deposit DRAFT_SUBMIT_REVIEW_FAILED) @ rest"
proof (cases "saveDraft' draft drafts deposit DRAFT_SUBMIT_REVIEW_FAILED")
  case (Pair fx res)
  show ?thesis
  proof (cases res)
    case (Inl e)
    with Pair show ?thesis by (simp add: submitReview_def)
  next
    case (Inr response)
    with Pair show ?thesis
      by (cases "service_submitReview drafts (links (data response))")
         (simp_all add: submitReview_def)
  qed
qed

lemma preview_runs_saveDraft':
  "\<exists>rest. fst (preview draft deposit drafts) =
      Dispatch \<lparr>type = DRAFT_PREVIEW_STARTED, payload = NoPayload\<rparr> #
      fst (saveDraft' draft drafts deposit DRAFT_PREVIEW_FAILED) @ rest"
proof (cases "saveDraft' draft drafts deposit DRAFT_PREVIEW_FAILED")
  case (Pair fx res)
  then show ?thesis by (cases res) (simp_all add: preview_def)
qed

lemma reviewMutation_no_TypeError:
  "snd (reviewMutation drafts cs l) \<noteq> Inl ThrownTypeError"
proof (cases "selected cs")
  case None
  then show ?thesis
    by (simp add: reviewMutation_def shouldUpdateReview_def split: sum.splits)
next
  case (Some c)
  then show ?thesis
    by (simp add: reviewMutation_def split: sum.splits)
qed

lemma saveDraft'_no_TypeError:
  "snd (saveDraft' draft drafts deposit failType) \<noteq> Inl ThrownTypeError"
proof (cases "saveDraftWithUrlUpdate draft drafts")
  case (Pair pre res)
  show ?thesis
  proof (cases res)
    case (Inl e)
    with Pair show ?thesis by (simp add: saveDraft'_def)
  next
    case (Inr r)
    obtain fx1 m where rm: "reviewMutation drafts (community deposit) (links (data r)) = (fx1, m)"
      by (cases "reviewMutation drafts (community deposit) (links (data r))")
    with reviewMutation_no_TypeError [of drafts "community deposit" "links (data r)"]
    have "m \<noteq> Inl ThrownTypeError" by simp
    with Pair Inr rm show ?thesis
      by (cases m; cases "service_read drafts (links (data r))")
         (simp_all add: saveDraft'_def Let_def)
  qed
qed

lemma saveDraft'_failType_unused:
  assumes "saveDraftWithUrlUpdate draft drafts = (pre, Inr r)" and "isEmpty (errors r)"
  shows "saveDraft' draft drafts deposit failType = saveDraft' draft drafts deposit failType'"
  by (simp only: saveDraft'_persisted [OF assms])

text \<open>
  Claim C3. After a save that resolved without validation errors, the review step of
  \<open>_saveDraft\<close> follows the decision table: a selected community whose review is not
  the existing one gives exactly one \<open>createOrUpdateReview\<close> call with the links of the
  saved draft and the community's identifier; otherwise an inclusion request with no
  community selected gives exactly one \<open>deleteReview\<close> call; otherwise there is no
  review call at all and the saved response is returned. When the mutation resolves,
  one \<open>read\<close> of the draft follows it; and when the persist succeeds after a mutation,
  that \<open>read\<close> is the last call and exactly one \<open>DRAFT_FETCHED\<close> event is dispatched,
  carrying the data that was read. \<open>save\<close>, \<open>publish\<close>, \<open>submitReview\<close> and \<open>preview\<close>
  each run this very trace after their first event. From the backend's answers alone:
  when the mutation and the \<open>read\<close> resolve, the effects after the save are the mutation
  call, the \<open>read\<close> and the one \<open>DRAFT_FETCHED\<close> event with the data read, and the
  response read is returned; when the mutation or the \<open>read\<close> rejects, nothing is
  dispatched and the routine rejects with that error.
\<close>

theorem review_reconciliation_decision_table:
  assumes saved: "service_save drafts draft = Inr r" and valid: "isEmpty (errors r)"
    and run: "saveDraft' draft drafts deposit failType = (fx, result)"
  shows
    "(\<forall>c. selected (community deposit) = Some c \<and>
          \<not> isReviewForSelectedCommunity (community deposit) \<longrightarrow>
        filter isReviewMutation (calls fx) =
          [CreateOrUpdateReview (links (data r)) (uuid c)] \<and>
        (service_createOrUpdateReview drafts (links (data r)) (uuid c) = Inr () \<longrightarrow>
           calls fx = [Save draft, CreateOrUpdateReview (links (data r)) (uuid c),
                       Read (links (data r))])) \<and>
     (selected (community deposit) = None \<and> recordHasInclusionRequest (community deposit) \<longrightarrow>
        filter isReviewMutation (calls fx) = [DeleteReview (links (data r))] \<and>
        (service_deleteReview drafts (links (data r)) = Inr () \<longrightarrow>
           calls fx = [Save draft, DeleteReview (links (data r)), Read (links (data r))])) \<and>
     (\<not> (selected (community deposit) \<noteq> None \<and>
          \<not> isReviewForSelectedCommunity (community deposit)) \<and>
      \<not> (selected (community deposit) = None \<and>
          recordHasInclusionRequest (community deposit)) \<longrightarrow>
        calls fx = [Save draft] \<and> dispatched fx = [] \<and> result = Inr r) \<and>
     (\<forall>resp. filter isReviewMutation (calls fx) \<noteq> [] \<and> result = Inr resp \<longrightarrow>
        filter isRead (calls fx) = [Read (links (data r))] \<and>
        last (calls fx) = Read (links (data r)) \<and>
        service_read drafts (links (data r)) = Inr resp \<and>
        dispatched fx = [\<lparr>type = DRAFT_FETCHED, payload = Data (data resp)\<rparr>]) \<and>
     ((\<exists>rest. fst (save draft deposit drafts) =
         Dispatch \<lparr>type = DRAFT_SAVE_STARTED, payload = NoPayload\<rparr> # fx @ rest) \<and>
      (\<exists>rest. fst (publish draft deposit drafts) =
         Dispatch \<lparr>type = DRAFT_PUBLISH_STARTED, payload = NoPayload\<rparr> # fx @ rest) \<and>
      (\<exists>rest. fst (submitReview draft deposit drafts) =
         Dispatch \<lparr>type = DRAFT_SUBMIT_REVIEW_STARTED, payload = NoPayload\<rparr> # fx @ rest) \<and>
      (\<exists>rest. fst (preview draft deposit drafts) =
         Dispatch \<lparr>type = DRAFT_PREVIEW_STARTED, payload = NoPayload\<rparr> # fx @ rest)) \<and>
     (\<forall>c. selected (community deposit) = Some c \<and>
          \<not> isReviewForSelectedCommunity (community deposit) \<longrightarrow>
        (\<forall>e. service_createOrUpdateReview drafts (links (data r)) (uuid c) = Inl e \<longrightarrow>
           fx = fst (saveDraftWithUrlUpdate draft drafts) @
                  [Call (CreateOrUpdateReview (links (data r)) (uuid c))] \<and>
           result = Inl (Rejected e)) \<and>
        (service_createOrUpdateReview drafts (links (data r)) (uuid c) = Inr () \<longrightarrow>
           (\<forall>resp. service_read drafts (links (data r)) = Inr resp \<longrightarrow>
              fx = fst (saveDraftWithUrlUpdate draft drafts) @
                     [Call (CreateOrUpdateReview (links (data r)) (uuid c)),
                      Call (Read (links (data r))),
                      Dispatch \<lparr>type = DRAFT_FETCHED, payload = Data (data resp)\<rparr>] \<and>
              dispatched fx = [\<lparr>type = DRAFT_FETCHED, payload = Data (data resp)\<rparr>] \<and>
              result = Inr resp) \<and>
           (\<forall>e. service_read drafts (links (data r)) = Inl e \<longrightarrow>
              fx = fst (saveDraftWithUrlUpdate draft drafts) @
                     [Call (CreateOrUpdateReview (links (data r)) (uuid c)),
                      Call (Read (links (data r)))] \<and>
              result = Inl (Rejected e)))) \<and>
     (selected (community deposit) = None \<and> recordHasInclusionRequest (community deposit) \<longrightarrow>
        (\<forall>e. service_deleteReview drafts (links (data r)) = Inl e \<longrightarrow>
           fx = fst (saveDraftWithUrlUpdate draft drafts) @
                  [Call (DeleteReview (links (data r)))] \<and>
           result = Inl (Rejected e)) \<and>
        (service_deleteReview drafts (links (data r)) = Inr () \<longrightarrow>
           (\<forall>resp. service_read drafts (links (data r)) = Inr resp \<longrightarrow>
              fx = fst (saveDraftWithUrlUpdate draft drafts) @
                     [Call (DeleteReview (links (data r))),
                      Call (Read (links (data r))),
                      Dispatch \<lparr>type = DRAFT_FETCHED, payload = Data (data resp)\<rparr>] \<and>
              dispatched fx = [\<lparr>type = DRAFT_FETCHED, payload = Data (data resp)\<rparr>] \<and>
              result = Inr resp) \<and>
           (\<forall>e. service_read drafts (links (data r)) = Inl e \<longrightarrow>
              fx = fst (saveDraftWithUrlUpdate draft drafts) @
                     [Call (DeleteReview (links (data r))),
                      Call (Read (links (data r)))] \<and>
              result = Inl (Rejected e)))) \<and>
     (\<not> (selected (community deposit) \<noteq> None \<and>
          \<not> isReviewForSelectedCommunity (community deposit)) \<and>
      \<not> (selected (community deposit) = None \<and>
          recordHasInclusionRequest (community deposit)) \<longrightarrow>
        fx = fst (saveDraftWithUrlUpdate draft drafts))"
proof -
  from saved obtain pre where pre: "saveDraftWithUrlUpdate draft drafts = (pre, Inr r)"
    and cp: "calls pre = [Save draft]" and dp: "dispatched pre = []"
    by (rule saveDraftWithUrlUpdate_pre)
  let ?cs = "community deposit"
  let ?l = "links (data r)"
  have fpre: "fst (saveDraftWithUrlUpdate draft drafts) = pre"
    by (simp add: pre)
  have upd_trace:
    "(\<forall>e. service_createOrUpdateReview drafts ?l (uuid c) = Inl e \<longrightarrow>
        fx = pre @ [Call (CreateOrUpdateReview ?l (uuid c))] \<and> result = Inl (Rejected e)) \<and>
     (service_createOrUpdateReview drafts ?l (uuid c) = Inr () \<longrightarrow>
        (\<forall>resp. service_read drafts ?l = Inr resp \<longrightarrow>
           fx = pre @ [Call (CreateOrUpdateReview ?l (uuid c)), Call (Read ?l),
                       Dispatch \<lparr>type = DRAFT_FETCHED, payload = Data (data resp)\<rparr>] \<and>
           dispatched fx = [\<lparr>type = DRAFT_FETCHED, payload = Data (data resp)\<rparr>] \<and>
           result = Inr resp) \<and>
        (\<forall>e. service_read drafts ?l = Inl e \<longrightarrow>
           fx = pre @ [Call (CreateOrUpdateReview ?l (uuid c)), Call (Read ?l)] \<and>
           result = Inl (Rejected e)))"
    if "selected ?cs = Some c" "\<not> isReviewForSelectedCommunity ?cs" for c
    using run dp unfolding saveDraft'_update [OF pre valid that]
    by (auto simp: dispatched_append split: sum.splits)
  have del_trace:
    "(\<forall>e. service_deleteReview drafts ?l = Inl e \<longrightarrow>
        fx = pre @ [Call (DeleteReview ?l)] \<and> result = Inl (Rejected e)) \<and>
     (service_deleteReview drafts ?l = Inr () \<longrightarrow>
        (\<forall>resp. service_read drafts ?l = Inr resp \<longrightarrow>
           fx = pre @ [Call (DeleteReview ?l), Call (Read ?l),
                       Dispatch \<lparr>type = DRAFT_FETCHED, payload = Data (data resp)\<rparr>] \<and>
           dispatched fx = [\<lparr>type = DRAFT_FETCHED, payload = Data (data resp)\<rparr>] \<and>
           result = Inr resp) \<and>
        (\<forall>e. service_read drafts ?l = Inl e \<longrightarrow>
           fx = pre @ [Call (DeleteReview ?l), Call (Read ?l)] \<and>
           result = Inl (Rejected e)))"
    if "selected ?cs = None" "recordHasInclusionRequest ?cs"
    using run dp unfolding saveDraft'_delete [OF pre valid that]
    by (auto simp: dispatched_append split: sum.splits)
  have none_trace: "fx = pre"
    if "\<not> (selected ?cs \<noteq> None \<and> \<not> isReviewForSelectedCommunity ?cs)"
       "\<not> (selected ?cs = None \<and> recordHasInclusionRequest ?cs)"
    using run unfolding saveDraft'_no_review [OF pre valid that] by simp
  have same: "fst (saveDraft' draft drafts deposit failType') = fx" for failType'
    using run saveDraft'_failType_unused [OF pre valid, of deposit failType' failType] by simp
  have paths:
    "(\<exists>rest. fst (save draft deposit drafts) =
        Dispatch \<lparr>type = DRAFT_SAVE_STARTED, payload = NoPayload\<rparr> # fx @ rest) \<and>
     (\<exists>rest. fst (publish draft deposit drafts) =
        Dispatch \<lparr>type = DRAFT_PUBLISH_STARTED, payload = NoPayload\<rparr> # fx @ rest) \<and>
     (\<exists>rest. fst (submitReview draft deposit drafts) =
        Dispatch \<lparr>type = DRAFT_SUBMIT_REVIEW_STARTED, payload = NoPayload\<rparr> # fx @ rest) \<and>
     (\<exists>rest. fst (preview draft deposit drafts) =
        Dispatch \<lparr>type = DRAFT_PREVIEW_STARTED, payload = NoPayload\<rparr> # fx @ rest)"
    using save_runs_saveDraft' [of draft deposit drafts]
      publish_runs_saveDraft' [of draft deposit drafts]
      submitReview_runs_saveDraft' [of draft deposit drafts]
      preview_runs_saveDraft' [of draft deposit drafts]
    unfolding same by (intro conjI)
  have upd: "filter isReviewMutation (calls fx) = [CreateOrUpdateReview ?l (uuid c)] \<and>
        (service_createOrUpdateReview drafts ?l (uuid c) = Inr () \<longrightarrow>
           calls fx = [Save draft, CreateOrUpdateReview ?l (uuid c), Read ?l])"
    if "selected ?cs = Some c" "\<not> isReviewForSelectedCommunity ?cs" for c
    using run cp unfolding saveDraft'_update [OF pre valid that]
    by (auto simp: calls_append split: sum.splits)
  have del: "filter isReviewMutation (calls fx) = [DeleteReview ?l] \<and>
        (service_deleteReview drafts ?l = Inr () \<longrightarrow>
           calls fx = [Save draft, DeleteReview ?l, Read ?l])"
    if "selected ?cs = None" "recordHasInclusionRequest ?cs"
    using run cp unfolding saveDraft'_delete [OF pre valid that]
    by (auto simp: calls_append split: sum.splits)
  have none: "calls fx = [Save draft] \<and> dispatched fx = [] \<and> result = Inr r"
    if "\<not> (selected ?cs \<noteq> None \<and> \<not> isReviewForSelectedCommunity ?cs)"
       "\<not> (selected ?cs = None \<and> recordHasInclusionRequest ?cs)"
    using run cp dp unfolding saveDraft'_no_review [OF pre valid that] by auto
  have ok: "filter isRead (calls fx) = [Read ?l] \<and> last (calls fx) = Read ?l \<and>
        service_read drafts ?l = Inr resp \<and>
        dispatched fx = [\<lparr>type = DRAFT_FETCHED, payload = Data (data resp)\<rparr>]"
    if mut: "filter isReviewMutation (calls fx) \<noteq> []" and res: "result = Inr resp" for resp
  proof (cases "selected ?cs")
    case None
    show ?thesis
    proof (cases "recordHasInclusionRequest ?cs")
      case True
      show ?thesis
        using run cp dp res unfolding saveDraft'_delete [OF pre valid None True]
        by (auto simp: calls_append dispatched_append split: sum.splits)
    next
      case False
      with None none have "calls fx = [Save draft]" by simp
      with mut show ?thesis by simp
    qed
  next
    case (Some c)
    show ?thesis
    proof (cases "isReviewForSelectedCommunity ?cs")
      case False
      show ?thesis
        using run cp dp res unfolding saveDraft'_update [OF pre valid Some False]
        by (auto simp: calls_append dispatched_append split: sum.splits)
    next
      case True
      with Some none have "calls fx = [Save draft]" by simp
      with mut show ?thesis by simp
    qed
  qed
  show ?thesis
    unfolding fpre
    apply (intro conjI)
    subgoal using upd by blast
    subgoal using del by blast
    subgoal using none by blast
    subgoal using ok by blast
    subgoal using paths by blast
    subgoal using paths by blast
    subgoal using paths by blast
    subgoal using paths by blast
    subgoal using upd_trace by blast
    subgoal using del_trace by blast
    subgoal using none_trace by blast
    done
qed

theorem review_reconciliation_decision_table_witness:
  "service_save (backend (Inr clean_response) (Inr clean_response)) saved_draft = Inr clean_response \<and>
   service_save (review_backend (Inl network_error) (Inr refreshed_response)) saved_draft =
     Inr clean_response \<and>
   isEmpty (errors clean_response) \<and>
   saveDraft' saved_draft (backend (Inr clean_response) (Inr clean_response))
       (deposit_of (Some \<lparr>uuid = ''c-1''\<rparr>) False False) DRAFT_SAVE_FAILED =
     ([Call (Save saved_draft), Call (CreateOrUpdateReview example_links ''c-1''),
       Call (Read example_links),
       Dispatch \<lparr>type = DRAFT_FETCHED, payload = Data refreshed_data\<rparr>],
      Inr refreshed_response) \<and>
   saveDraft' saved_draft (backend (Inr clean_response) (Inr clean_response))
       (deposit_of None True False) DRAFT_SAVE_FAILED =
     ([Call (Save saved_draft), Call (DeleteReview example_links),
       Call (Read example_links),
       Dispatch \<lparr>type = DRAFT_FETCHED, payload = Data refreshed_data\<rparr>],
      Inr refreshed_response) \<and>
   saveDraft' saved_draft (backend (Inr clean_response) (Inr clean_response))
       (deposit_of None False False) DRAFT_SAVE_FAILED =
     ([Call (Save saved_draft)], Inr clean_response) \<and>
   saveDraft' saved_draft (review_backend (Inl network_error) (Inr refreshed_response))
       (deposit_of (Some \<lparr>uuid = ''c-1''\<rparr>) True False) DRAFT_SAVE_FAILED =
     ([Call (Save saved_draft), Call (CreateOrUpdateReview example_links ''c-1'')],
      Inl (Rejected network_error)) \<and>
   saveDraft' saved_draft (review_backend (Inr ()) (Inl network_error))
       (deposit_of None True False) DRAFT_SAVE_FAILED =
     ([Call (Save saved_draft), Call (DeleteReview example_links), Call (Read example_links)],
      Inl (Rejected network_error)) \<and>
   refreshed_response \<noteq> clean_response"
proof -
  note defs = backend_def review_backend_def clean_response_def refreshed_response_def
    refreshed_data_def example_data_def saveDraft'_def saveDraftWithUrlUpdate_def
    hasAlreadyId_def saved_draft_def deposit_of_def shouldUpdateReview_def
    shouldDeleteReview_def reviewMutation_def Let_def
  let ?ok = "backend (Inr clean_response) (Inr clean_response)"
  let ?norev = "review_backend (Inl network_error) (Inr refreshed_response)"
  let ?noread = "review_backend (Inr ()) (Inl network_error)"
  have saved: "service_save ?ok saved_draft = Inr clean_response"
    "service_save ?norev saved_draft = Inr clean_response"
    "service_save ?noread saved_draft = Inr clean_response"
    by (simp_all add: backend_def review_backend_def)
  have valid: "isEmpty (errors clean_response)"
    by (simp add: clean_response_def)
  have differ: "refreshed_response \<noteq> clean_response"
    by (simp add: refreshed_response_def clean_response_def refreshed_data_def example_data_def)
  have run1: "saveDraft' saved_draft ?ok
       (deposit_of (Some \<lparr>uuid = ''c-1''\<rparr>) False False) DRAFT_SAVE_FAILED =
     ([Call (Save saved_draft), Call (CreateOrUpdateReview example_links ''c-1''),
       Call (Read example_links),
       Dispatch \<lparr>type = DRAFT_FETCHED, payload = Data refreshed_data\<rparr>],
      Inr refreshed_response)"
    by (simp add: defs)
  have run2: "saveDraft' saved_draft ?ok (deposit_of None True False) DRAFT_SAVE_FAILED =
     ([Call (Save saved_draft), Call (DeleteReview example_links),
       Call (Read example_links),
       Dispatch \<lparr>type = DRAFT_FETCHED, payload = Data refreshed_data\<rparr>],
      Inr refreshed_response)"
    by (simp add: defs)
  have run3: "saveDraft' saved_draft ?ok (deposit_of None False False) DRAFT_SAVE_FAILED =
     ([Call (Save saved_draft)], Inr clean_response)"
    by (simp add: defs)
  have run4: "saveDraft' saved_draft ?norev
       (deposit_of (Some \<lparr>uuid = ''c-1''\<rparr>) True False) DRAFT_SAVE_FAILED =
     ([Call (Save saved_draft), Call (CreateOrUpdateReview example_links ''c-1'')],
      Inl (Rejected network_error))"
    by (simp add: defs)
  have run5: "saveDraft' saved_draft ?noread (deposit_of None True False) DRAFT_SAVE_FAILED =
     ([Call (Save saved_draft), Call (DeleteReview example_links), Call (Read example_links)],
      Inl (Rejected network_error))"
    by (simp add: defs)
  note table =
    review_reconciliation_decision_table [OF saved(1) valid run1]
    review_reconciliation_decision_table [OF saved(1) valid run2]
    review_reconciliation_decision_table [OF saved(1) valid run3]
    review_reconciliation_decision_table [OF saved(2) valid run4]
    review_reconciliation_decision_table [OF saved(3) valid run5]
  from table saved(1,2) valid differ run1 run2 run3 run4 run5 show ?thesis
    by simp
qed

lemma reservePID_save_rejected:
  assumes "service_save drafts draft = Inl e"
  shows "reservePID draft pidType drafts =
     ([Dispatch \<lparr>type = RESERVE_PID_STARTED, payload = PidType pidType\<rparr>, Call (Save draft),
       Dispatch \<lparr>type = RESERVE_PID_FAILED, payload = Errors (rejection_errors e)\<rparr>],
      Inl (Rejected e))"
  using assms by (simp add: reservePID_def saveDraftWithUrlUpdate_rejected)

lemma reservePID_pid_rejected:
  assumes "saveDraftWithUrlUpdate draft drafts = (pre, Inr r)"
    and "service_reservePID drafts (links (data r)) pidType = Inl e"
  shows "reservePID draft pidType drafts =
     (Dispatch \<lparr>type = RESERVE_PID_STARTED, payload = PidType pidType\<rparr> # pre @
        [Call (ReservePID (links (data r)) pidType),
         Dispatch \<lparr>type = RESERVE_PID_FAILED, payload = Errors (rejection_errors e)\<rparr>],
      Inl (Rejected e))"
  using assms by (simp add: reservePID_def)

lemma reservePID_succeeded:
  assumes "saveDraftWithUrlUpdate draft drafts = (pre, Inr r)"
    and "service_reservePID drafts (links (data r)) pidType = Inr r'"
  shows "reservePID draft pidType drafts =
     (Dispatch \<lparr>type = RESERVE_PID_STARTED, payload = PidType pidType\<rparr> # pre @
        [Call (ReservePID (links (data r)) pidType),
         Dispatch \<lparr>type = RESERVE_PID_SUCCEEDED, payload = Data (data r')\<rparr>],
      Inr ())"
  using assms by (simp add: reservePID_def)

lemma reservePID_outcomes:
  "(\<forall>e. service_save drafts draft = Inl e \<longrightarrow>
      dispatched (fst (reservePID draft pidType drafts)) =
        [\<lparr>type = RESERVE_PID_STARTED, payload = PidType pidType\<rparr>,
         \<lparr>type = RESERVE_PID_FAILED, payload = Errors (rejection_errors e)\<rparr>] \<and>
      calls (fst (reservePID draft pidType drafts)) = [Save draft] \<and>
      snd (reservePID draft pidType drafts) = Inl (Rejected e)) \<and>
   (\<forall>r e. service_save drafts draft = Inr r \<and>
          service_reservePID drafts (links (data r)) pidType = Inl e \<longrightarrow>
      dispatched (fst (reservePID draft pidType drafts)) =
        [\<lparr>type = RESERVE_PID_STARTED, payload = PidType pidType\<rparr>,
         \<lparr>type = RESERVE_PID_FAILED, payload = Errors (rejection_errors e)\<rparr>] \<and>
      calls (fst (reservePID draft pidType drafts)) =
        [Save draft, ReservePID (links (data r)) pidType] \<and>
      snd (reservePID draft pidType drafts) = Inl (Rejected e)) \<and>
   (\<forall>r r'. service_save drafts draft = Inr r \<and>
          service_reservePID drafts (links (data r)) pidType = Inr r' \<longrightarrow>
      dispatched (fst (reservePID draft pidType drafts)) =
        [\<lparr>type = RESERVE_PID_STARTED, payload = PidType pidType\<rparr>,
         \<lparr>type = RESERVE_PID_SUCCEEDED, payload = Data (data r')\<rparr>] \<and>
      calls (fst (reservePID draft pidType drafts)) =
        [Save draft, ReservePID (links (data r)) pidType] \<and>
      snd (reservePID draft pidType drafts) = Inr ())"
proof (intro conjI allI impI)
  fix e assume "service_save drafts draft = Inl e"
  then show "dispatched (fst (reservePID draft pidType drafts)) =
        [\<lparr>type = RESERVE_PID_STARTED, payload = PidType pidType\<rparr>,
         \<lparr>type = RESERVE_PID_FAILED, payload = Errors (rejection_errors e)\<rparr>]"
    and "calls (fst (reservePID draft pidType drafts)) = [Save draft]"
    and "snd (reservePID draft pidType drafts) = Inl (Rejected e)"
    by (simp_all add: reservePID_save_rejected)
next
  fix r e assume a: "service_save drafts draft = Inr r \<and>
          service_reservePID drafts (links (data r)) pidType = Inl e"
  then obtain pre where pre: "saveDraftWithUrlUpdate draft drafts = (pre, Inr r)"
    and cp: "calls pre = [Save draft]" and dp: "dispatched pre = []"
    by (blast elim: saveDraftWithUrlUpdate_pre)
  from a have b: "service_reservePID drafts (links (data r)) pidType = Inl e" by simp
  show "dispatched (fst (reservePID draft pidType drafts)) =
        [\<lparr>type = RESERVE_PID_STARTED, payload = PidType pidType\<rparr>,
         \<lparr>type = RESERVE_PID_FAILED, payload = Errors (rejection_errors e)\<rparr>]"
    and "calls (fst (reservePID draft pidType drafts)) =
        [Save draft, ReservePID (links (data r)) pidType]"
    and "snd (reservePID draft pidType drafts) = Inl (Rejected e)"
    using cp dp
    by (simp_all add: reservePID_pid_rejected [OF pre b] dispatched_append calls_append)
next
  fix r r' assume a: "service_save drafts draft = Inr r \<and>
          service_reservePID drafts (links (data r)) pidType = Inr r'"
  then obtain pre where pre: "saveDraftWithUrlUpdate draft drafts = (pre, Inr r)"
    and cp: "calls pre = [Save draft]" and dp: "dispatched pre = []"
    by (blast elim: saveDraftWithUrlUpdate_pre)
  from a have b: "service_reservePID drafts (links (data r)) pidType = Inr r'" by simp
  show "dispatched (fst (reservePID draft pidType drafts)) =
        [\<lparr>type = RESERVE_PID_STARTED, payload = PidType pidType\<rparr>,
         \<lparr>type = RESERVE_PID_SUCCEEDED, payload = Data (data r')\<rparr>]"
    and "calls (fst (reservePID draft pidType drafts)) =
        [Save draft, ReservePID (links (data r)) pidType]"
    and "snd (reservePID draft pidType drafts) = Inr ()"
    using cp dp
    by (simp_all add: reservePID_succeeded [OF pre b] dispatched_append calls_append)
qed

lemma reservePID_narrow:
  "dispatchedOf DRAFT_HAS_VALIDATION_ERRORS (fst (reservePID draft pidType drafts)) = [] \<and>
   filter isReviewMutation (calls (fst (reservePID draft pidType drafts))) = [] \<and>
   filter isRead (calls (fst (reservePID draft pidType drafts))) = []"
proof (cases "service_save drafts draft")
  case (Inl e)
  with reservePID_outcomes [of drafts draft pidType] show ?thesis
    by (simp add: dispatchedOf_def)
next
  case (Inr r)
  with reservePID_outcomes [of drafts draft pidType] show ?thesis
    by (cases "service_reservePID drafts (links (data r)) pidType") (simp_all add: dispatchedOf_def)
qed

lemma discardPID_save_rejected:
  assumes "service_save drafts draft = Inl e"
  shows "discardPID draft pidType drafts =
     ([Dispatch \<lparr>type = DISCARD_PID_STARTED, payload = PidType pidType\<rparr>, Call (Save draft),
       Dispatch \<lparr>type = DISCARD_PID_FAILED, payload = Errors (rejection_errors e)\<rparr>],
      Inl (Rejected e))"
  using assms by (simp add: discardPID_def saveDraftWithUrlUpdate_rejected)

lemma discardPID_pid_rejected:
  assumes "saveDraftWithUrlUpdate draft drafts = (pre, Inr r)"
    and "service_discardPID drafts (links (data r)) pidType = Inl e"
  shows "discardPID draft pidType drafts =
     (Dispatch \<lparr>type = DISCARD_PID_STARTED, payload = PidType pidType\<rparr> # pre @
        [Call (DiscardPID (links (data r)) pidType),
         Dispatch \<lparr>type = DISCARD_PID_FAILED, payload = Errors (rejection_errors e)\<rparr>],
      Inl (Rejected e))"
  using assms by (simp add: discardPID_def)

lemma discardPID_succeeded:
  assumes "saveDraftWithUrlUpdate draft drafts = (pre, Inr r)"
    and "service_discardPID drafts (links (data r)) pidType = Inr r'"
  shows "discardPID draft pidType drafts =
     (Dispatch \<lparr>type = DISCARD_PID_STARTED, payload = PidType pidType\<rparr> # pre @
        [Call (DiscardPID (links (data r)) pidType),
         Dispatch \<lparr>type = DISCARD_PID_SUCCEEDED, payload = Data (data r')\<rparr>],
      Inr ())"
  using assms by (simp add: discardPID_def)

lemma discardPID_outcomes:
  "(\<forall>e. service_save drafts draft = Inl e \<longrightarrow>
      dispatched (fst (discardPID draft pidType drafts)) =
        [\<lparr>type = DISCARD_PID_STARTED, payload = PidType pidType\<rparr>,
         \<lparr>type = DISCARD_PID_FAILED, payload = Errors (rejection_errors e)\<rparr>] \<and>
      calls (fst (discardPID draft pidType drafts)) = [Save draft] \<and>
      snd (discardPID draft pidType drafts) = Inl (Rejected e)) \<and>
   (\<forall>r e. service_save drafts draft = Inr r \<and>
          service_discardPID drafts (links (data r)) pidType = Inl e \<longrightarrow>
      dispatched (fst (discardPID draft pidType drafts)) =
        [\<lparr>type = DISCARD_PID_STARTED, payload = PidType pidType\<rparr>,
         \<lparr>type = DISCARD_PID_FAILED, payload = Errors (rejection_errors e)\<rparr>] \<and>
      calls (fst (discardPID draft pidType drafts)) =
        [Save draft, DiscardPID (links (data r)) pidType] \<and>
      snd (discardPID draft pidType drafts) = Inl (Rejected e)) \<and>
   (\<forall>r r'. service_save drafts draft = Inr r \<and>
          service_discardPID drafts (links (data r)) pidType = Inr r' \<longrightarrow>
      dispatched (fst (discardPID draft pidType drafts)) =
        [\<lparr>type = DISCARD_PID_STARTED, payload = PidType pidType\<rparr>,
         \<lparr>type = DISCARD_PID_SUCCEEDED, payload = Data (data r')\<rparr>] \<and>
      calls (fst (discardPID draft pidType drafts)) =
        [Save draft, DiscardPID (links (data r)) pidType] \<and>
      snd (discardPID draft pidType drafts) = Inr ())"
proof (intro conjI allI impI)
  fix e assume "service_save drafts draft = Inl e"
  then show "dispatched (fst (discardPID draft pidType drafts)) =
        [\<lparr>type = DISCARD_PID_STARTED, payload = PidType pidType\<rparr>,
         \<lparr>type = DISCARD_PID_FAILED, payload = Errors (rejection_errors e)\<rparr>]"
    and "calls (fst (discardPID draft pidType drafts)) = [Save draft]"
    and "snd (discardPID draft pidType drafts) = Inl (Rejected e)"
    by (simp_all add: discardPID_save_rejected)
next
  fix r e assume a: "service_save drafts draft = Inr r \<and>
          service_discardPID drafts (links (data r)) pidType = Inl e"
  then obtain pre where pre: "saveDraftWithUrlUpdate draft drafts = (pre, Inr r)"
    and cp: "calls pre = [Save draft]" and dp: "dispatched pre = []"
    by (blast elim: saveDraftWithUrlUpdate_pre)
  from a have b: "service_discardPID drafts (links (data r)) pidType = Inl e" by simp
  show "dispatched (fst (discardPID draft pidType drafts)) =
        [\<lparr>type = DISCARD_PID_STARTED, payload = PidType pidType\<rparr>,
         \<lparr>type = DISCARD_PID_FAILED, payload = Errors (rejection_errors e)\<rparr>]"
    and "calls (fst (discardPID draft pidType drafts)) =
        [Save draft, DiscardPID (links (data r)) pidType]"
    and "snd (discardPID draft pidType drafts) = Inl (Rejected e)"
    using cp dp
    by (simp_all add: discardPID_pid_rejected [OF pre b] dispatched_append calls_append)
next
  fix r r' assume a: "service_save drafts draft = Inr r \<and>
          service_discardPID drafts (links (data r)) pidType = Inr r'"
  then obtain pre where pre: "saveDraftWithUrlUpdate draft drafts = (pre, Inr r)"
    and cp: "calls pre = [Save draft]" and dp: "dispatched pre = []"
    by (blast elim: saveDraftWithUrlUpdate_pre)
  from a have b: "service_discardPID drafts (links (data r)) pidType = Inr r'" by simp
  show "dispatched (fst (discardPID draft pidType drafts)) =
        [\<lparr>type = DISCARD_PID_STARTED, payload = PidType pidType\<rparr>,
         \<lparr>type = DISCARD_PID_SUCCEEDED, payload = Data (data r')\<rparr>]"
    and "calls (fst (discardPID draft pidType drafts)) =
        [Save draft, DiscardPID (links (data r)) pidType]"
    and "snd (discardPID draft pidType drafts) = Inr ()"
    using cp dp
    by (simp_all add: discardPID_succeeded [OF pre b] dispatched_append calls_append)
qed

lemma discardPID_narrow:
  "dispatchedOf DRAFT_HAS_VALIDATION_ERRORS (fst (discardPID draft pidType drafts)) = [] \<and>
   filter isReviewMutation (calls (fst (discardPID draft pidType drafts))) = [] \<and>
   filter isRead (calls (fst (discardPID draft pidType drafts))) = []"
proof (cases "service_save drafts draft")
  case (Inl e)
  with discardPID_outcomes [of drafts draft pidType] show ?thesis
    by (simp add: dispatchedOf_def)
next
  case (Inr r)
  with discardPID_outcomes [of drafts draft pidType] show ?thesis
    by (cases "service_discardPID drafts (links (data r)) pidType") (simp_all add: dispatchedOf_def)
qed

text \<open>
  Claim C7. \<open>reservePID\<close> and \<open>discardPID\<close> persist through \<open>saveDraftWithUrlUpdate\<close>
  only: whatever the save response carries, they never dispatch
  \<open>DRAFT_HAS_VALIDATION_ERRORS\<close> and never call \<open>deleteReview\<close>, \<open>createOrUpdateReview\<close>
  or \<open>read\<close>. When both backend calls resolve, exactly one \<open>..._SUCCEEDED\<close> event with
  the data of the identifier call is dispatched; when the save or the identifier call
  rejects, exactly one \<open>..._FAILED\<close> event with the errors of the rejection is
  dispatched and the promise rejects with that error.
\<close>

theorem pid_operations_narrow_persist:
  "((dispatchedOf DRAFT_HAS_VALIDATION_ERRORS (fst (reservePID draft pidType drafts)) = [] \<and>
     filter isReviewMutation (calls (fst (reservePID draft pidType drafts))) = [] \<and>
     filter isRead (calls (fst (reservePID draft pidType drafts))) = []) \<and>
    ((\<forall>e. service_save drafts draft = Inl e \<longrightarrow>
        dispatched (fst (reservePID draft pidType drafts)) =
          [\<lparr>type = RESERVE_PID_STARTED, payload = PidType pidType\<rparr>,
           \<lparr>type = RESERVE_PID_FAILED, payload = Errors (rejection_errors e)\<rparr>] \<and>
        calls (fst (reservePID draft pidType drafts)) = [Save draft] \<and>
        snd (reservePID draft pidType drafts) = Inl (Rejected e)) \<and>
     (\<forall>r e. service_save drafts draft = Inr r \<and>
            service_reservePID drafts (links (data r)) pidType = Inl e \<longrightarrow>
        dispatched (fst (reservePID draft pidType drafts)) =
          [\<lparr>type = RESERVE_PID_STARTED, payload = PidType pidType\<rparr>,
           \<lparr>type = RESERVE_PID_FAILED, payload = Errors (rejection_errors e)\<rparr>] \<and>
        calls (fst (reservePID draft pidType drafts)) =
          [Save draft, ReservePID (links (data r)) pidType] \<and>
        snd (reservePID draft pidType drafts) = Inl (Rejected e)) \<and>
     (\<forall>r r'. service_save drafts draft = Inr r \<and>
            service_reservePID drafts (links (data r)) pidType = Inr r' \<longrightarrow>
        dispatched (fst (reservePID draft pidType drafts)) =
          [\<lparr>type = RESERVE_PID_STARTED, payload = PidType pidType\<rparr>,
           \<lparr>type = RESERVE_PID_SUCCEEDED, payload = Data (data r')\<rparr>] \<and>
        calls (fst (reservePID draft pidType drafts)) =
          [Save draft, ReservePID (links (data r)) pidType] \<and>
        snd (reservePID draft pidType drafts) = Inr ()))) \<and>
   ((dispatchedOf DRAFT_HAS_VALIDATION_ERRORS (fst (discardPID draft pidType drafts)) = [] \<and>
     filter isReviewMutation (calls (fst (discardPID draft pidType drafts))) = [] \<and>
     filter isRead (calls (fst (discardPID draft pidType drafts))) = []) \<and>
    ((\<forall>e. service_save drafts draft = Inl e \<longrightarrow>
        dispatched (fst (discardPID draft pidType drafts)) =
          [\<lparr>type = DISCARD_PID_STARTED, payload = PidType pidType\<rparr>,
           \<lparr>type = DISCARD_PID_FAILED, payload = Errors (rejection_errors e)\<rparr>] \<and>
        calls (fst (discardPID draft pidType drafts)) = [Save draft] \<and>
        snd (discardPID draft pidType drafts) = Inl (Rejected e)) \<and>
     (\<forall>r e. service_save drafts draft = Inr r \<and>
            service_discardPID drafts (links (data r)) pidType = Inl e \<longrightarrow>
        dispatched (fst (discardPID draft pidType drafts)) =
          [\<lparr>type = DISCARD_PID_STARTED, payload = PidType pidType\<rparr>,
           \<lparr>type = DISCARD_PID_FAILED, payload = Errors (rejection_errors e)\<rparr>] \<and>
        calls (fst (discardPID draft pidType drafts)) =
          [Save draft, DiscardPID (links (data r)) pidType] \<and>
        snd (discardPID draft pidType drafts) = Inl (Rejected e)) \<and>
     (\<forall>r r'. service_save drafts draft = Inr r \<and>
            service_discardPID drafts (links (data r)) pidType = Inr r' \<longrightarrow>
        dispatched (fst (discardPID draft pidType drafts)) =
          [\<lparr>type = DISCARD_PID_STARTED, payload = PidType pidType\<rparr>,
           \<lparr>type = DISCARD_PID_SUCCEEDED, payload = Data (data r')\<rparr>] \<and>
        calls (fst (discardPID draft pidType drafts)) =
          [Save draft, DiscardPID (links (data r)) pidType] \<and>
        snd (discardPID draft pidType drafts) = Inr ())))"
  by (rule conjI [OF conjI [OF reservePID_narrow reservePID_outcomes]
        conjI [OF discardPID_narrow discardPID_outcomes]])

theorem pid_operations_narrow_persist_witness:
  "reservePID new_draft ''doi'' (backend (Inr invalid_response) (Inr clean_response)) =
     ([Dispatch \<lparr>type = RESERVE_PID_STARTED, payload = PidType ''doi''\<rparr>,
       Call (Save new_draft), History_replaceState ''/uploads/abcde-12345'',
       Call (ReservePID example_links ''doi''),
       Dispatch \<lparr>type = RESERVE_PID_SUCCEEDED, payload = Data example_data\<rparr>], Inr ()) \<and>
   discardPID saved_draft ''doi'' (backend (Inr clean_response) (Inl network_error)) =
     ([Dispatch \<lparr>type = DISCARD_PID_STARTED, payload = PidType ''doi''\<rparr>,
       Call (Save saved_draft),
       Call (DiscardPID example_links ''doi''),
       Dispatch \<lparr>type = DISCARD_PID_FAILED, payload = Errors (rejection_errors network_error)\<rparr>],
      Inl (Rejected network_error)) \<and>
   reservePID saved_draft ''doi'' (backend (Inl network_error) (Inr clean_response)) =
     ([Dispatch \<lparr>type = RESERVE_PID_STARTED, payload = PidType ''doi''\<rparr>,
       Call (Save saved_draft),
       Dispatch \<lparr>type = RESERVE_PID_FAILED, payload = Errors (rejection_errors network_error)\<rparr>],
      Inl (Rejected network_error))"
  using pid_operations_narrow_persist
      [of new_draft "''doi''" "backend (Inr invalid_response) (Inr clean_response)"]
    pid_operations_narrow_persist
      [of saved_draft "''doi''" "backend (Inr clean_response) (Inl network_error)"]
    pid_operations_narrow_persist
      [of saved_draft "''doi''" "backend (Inl network_error) (Inr clean_response)"]
  by (simp add: backend_def clean_response_def invalid_response_def example_data_def
      example_links_def reservePID_def discardPID_def
      saveDraftWithUrlUpdate_def hasAlreadyId_def saved_draft_def new_draft_def
      changeURLAfterCreation_def)

section \<open>Properties of the error aggregator\<close>

subsection \<open>Unique messages\<close>

lemma remdups_snoc: "remdups (ys @ [x]) = filter (\<lambda>y. y \<noteq> x) (remdups ys) @ [x]"
  by (induction ys) auto

lemma first_seen_Cons:
  "rev (remdups (rev (x # xs))) = x # filter (\<lambda>y. y \<noteq> x) (rev (remdups (rev xs)))"
  by (simp add: remdups_snoc rev_filter)

lemma Set_add_old: "x \<in> set s \<Longrightarrow> Set_add s x = s"
  by (simp add: Set_add_def)

lemma Set_add_new: "x \<notin> set s \<Longrightarrow> Set_add s x = s @ [x]"
  by (simp add: Set_add_def)

lemma foldl_Set_add:
  "foldl Set_add acc xs = acc @ filter (\<lambda>x. x \<notin> set acc) (rev (remdups (rev xs)))"
proof (induction xs arbitrary: acc)
  case Nil
  then show ?case by simp
next
  case (Cons x xs)
  let ?F = "rev (remdups (rev xs))"
  show ?case
  proof (cases "x \<in> set acc")
    case True
    have "foldl Set_add acc (x # xs) = foldl Set_add acc xs"
      using True by (simp add: Set_add_old)
    also have "\<dots> = acc @ filter (\<lambda>y. y \<notin> set acc) ?F"
      by (rule Cons.IH)
    also have "filter (\<lambda>y. y \<notin> set acc) ?F =
               filter (\<lambda>y. y \<notin> set acc) (rev (remdups (rev (x # xs))))"
      unfolding first_seen_Cons using True by (auto intro: filter_cong)
    finally show ?thesis .
  next
    case False
    have "foldl Set_add acc (x # xs) = foldl Set_add (acc @ [x]) xs"
      using False by (simp add: Set_add_new)
    also have "\<dots> = (acc @ [x]) @ filter (\<lambda>y. y \<notin> set (acc @ [x])) ?F"
      by (rule Cons.IH)
    also have "filter (\<lambda>y. y \<notin> set (acc @ [x])) ?F =
               filter (\<lambda>y. y \<notin> set acc) (filter (\<lambda>y. y \<noteq> x) ?F)"
      by (auto intro: filter_cong)
    also have "(acc @ [x]) @ filter (\<lambda>y. y \<notin> set acc) (filter (\<lambda>y. y \<noteq> x) ?F) =
               acc @ filter (\<lambda>y. y \<notin> set acc) (rev (remdups (rev (x # xs))))"
      unfolding first_seen_Cons using False by simp
    finally show ?thesis .
  qed
qed

lemma new_Set_first_seen: "new_Set xs = rev (remdups (rev xs))"
  by (simp add: new_Set_def foldl_Set_add)

lemma new_Set_singleton_hd:
  assumes "length (new_Set xs) = 1"
  shows "\<exists>m ms. xs = m # ms \<and> new_Set xs = [m]"
proof (cases xs)
  case Nil
  with assms show ?thesis by (simp add: new_Set_def)
next
  case (Cons m ms)
  then have "new_Set xs = m # filter (\<lambda>y. y \<noteq> m) (new_Set ms)"
    by (simp only: new_Set_first_seen first_seen_Cons)
  with assms Cons show ?thesis by simp
qed

text \<open>
  Claim C6. \<open>renderErrorMessages\<close> removes duplicates by equality of the strings and
  keeps the order of first occurrence. When exactly one message remains it yields that
  message as inline text; otherwise it yields the list of the remaining messages, in
  order. So \<open>["a", "a", "b"]\<close> gives the list \<open>["a", "b"]\<close> and \<open>["only"]\<close> gives the
  bare string.
\<close>

theorem renderErrorMessages_unique_first_seen:
  "renderErrorMessages messages =
     (if length (rev (remdups (rev messages))) = 1
      then Text (hd (rev (remdups (rev messages))))
      else Ul (rev (remdups (rev messages)))) \<and>
   distinct (rev (remdups (rev messages))) \<and>
   set (rev (remdups (rev messages))) = set messages \<and>
   renderErrorMessages [''a'', ''a'', ''b''] = Ul [''a'', ''b''] \<and>
   renderErrorMessages [''only''] = Text ''only''"
proof -
  have 1: "renderErrorMessages messages =
     (if length (rev (remdups (rev messages))) = 1
      then Text (hd (rev (remdups (rev messages))))
      else Ul (rev (remdups (rev messages))))"
  proof (cases "length (new_Set messages) = 1")
    case True
    then obtain m ms where "messages = m # ms" "new_Set messages = [m]"
      using new_Set_singleton_hd by blast
    then show ?thesis
      using new_Set_first_seen [of messages] by (simp add: renderErrorMessages_def)
  next
    case False
    then show ?thesis
      using new_Set_first_seen [of messages] by (simp add: renderErrorMessages_def)
  qed
  have 2: "renderErrorMessages [''a'', ''a'', ''b''] = Ul [''a'', ''b'']"
    by (simp add: renderErrorMessages_def new_Set_def Set_add_def)
  have 3: "renderErrorMessages [''only''] = Text ''only''"
    by (simp add: renderErrorMessages_def new_Set_def Set_add_def)
  from 1 2 3 show ?thesis by simp
qed

theorem renderErrorMessages_unique_first_seen_witness:
  "renderErrorMessages [''x'', ''y'', ''x''] = Ul [''x'', ''y''] \<and>
   renderErrorMessages [''x'', ''x''] = Text ''x'' \<and>
   renderErrorMessages [] = Ul []"
  using renderErrorMessages_unique_first_seen [of "[''x'', ''y'', ''x'']"]
    renderErrorMessages_unique_first_seen [of "[''x'', ''x'']"]
    renderErrorMessages_unique_first_seen [of "[]"]
  by simp

subsection \<open>Objects as ordered property lists\<close>

lemma insertIndexKey_keys: "set (map fst (insertIndexKey k v obj)) = insert k (set (map fst obj))"
  by (induction k v obj rule: insertIndexKey.induct) auto

lemma insertIndexKey_set: "set (insertIndexKey k v obj) = insert (k, v) (set obj)"
  by (induction k v obj rule: insertIndexKey.induct) auto

lemma insertIndexKey_distinct:
  "k \<notin> set (map fst obj) \<Longrightarrow> distinct (map fst obj) \<Longrightarrow> distinct (map fst (insertIndexKey k v obj))"
proof (induction k v obj rule: insertIndexKey.induct)
  case (1 k v)
  then show ?case by simp
next
  case (2 k v k' v' kvs)
  then have "k' \<notin> set (map fst (insertIndexKey k v kvs))"
    unfolding insertIndexKey_keys by auto
  with 2 show ?case by auto
qed

lemma insertIndexKey_map_of:
  "k \<notin> set (map fst obj) \<Longrightarrow> map_of (insertIndexKey k v obj) = (map_of obj)(k \<mapsto> v)"
  by (induction k v obj rule: insertIndexKey.induct) (auto simp: fun_eq_iff)

lemma update_in_place_lookup:
  "map_of (map (\<lambda>(k', v'). if k' = k then (k', v) else (k', v')) obj) x =
     (if x = k then (if k \<in> set (map fst obj) then Some v else None) else map_of obj x)"
  by (induction obj) (force split: if_splits)+

lemma update_in_place_map_of:
  "k \<in> set (map fst obj) \<Longrightarrow>
   map_of (map (\<lambda>(k', v'). if k' = k then (k', v) else (k', v')) obj) = (map_of obj)(k \<mapsto> v)"
  by (rule ext) (simp add: update_in_place_lookup del: set_map)

lemma update_in_place_keys:
  "map fst (map (\<lambda>(k', v'). if k' = k then (k', v) else (k', v')) obj) = map fst obj"
  by (induction obj) auto

lemma update_in_place_set:
  "set (map (\<lambda>(k', v'). if k' = k then (k', v) else (k', v')) obj) \<subseteq> insert (k, v) (set obj)"
  by (induction obj) auto

lemma map_of_snoc_new:
  "k \<notin> set (map fst obj) \<Longrightarrow> map_of (obj @ [(k, v)]) = (map_of obj)(k \<mapsto> v)"
  by (induction obj) (auto simp: fun_eq_iff)

lemma setProp_map_of: "map_of (setProp obj k v) = (map_of obj)(k \<mapsto> v)"
proof (cases "k \<in> set (map fst obj)")
  case True
  then show ?thesis
    unfolding setProp_def by (simp only: if_True update_in_place_map_of)
next
  case False
  show ?thesis
  proof (cases "isArrayIndex k")
    case True
    with False show ?thesis
      unfolding setProp_def by (simp add: insertIndexKey_map_of [OF False])
  next
    case nonindex: False
    with False have "setProp obj k v = obj @ [(k, v)]"
      by (simp add: setProp_def)
    then show ?thesis
      by (simp only: map_of_snoc_new [OF False])
  qed
qed

lemma setProp_keys: "set (map fst (setProp obj k v)) = insert k (set (map fst obj))"
proof (cases "k \<in> set (map fst obj)")
  case True
  then show ?thesis
    unfolding setProp_def by (simp only: if_True update_in_place_keys) auto
next
  case False
  then show ?thesis
    unfolding setProp_def
    by (cases "isArrayIndex k") (simp_all only: if_False if_True insertIndexKey_keys, simp_all)
qed

lemma setProp_distinct:
  assumes "distinct (map fst obj)"
  shows "distinct (map fst (setProp obj k v))"
proof (cases "k \<in> set (map fst obj)")
  case True
  with assms show ?thesis
    unfolding setProp_def by (simp only: if_True update_in_place_keys)
next
  case False
  show ?thesis
  proof (cases "isArrayIndex k")
    case True
    with False assms show ?thesis
      unfolding setProp_def by (simp add: insertIndexKey_distinct [OF False assms])
  next
    case nonindex: False
    with False assms show ?thesis
      unfolding setProp_def by (simp only: if_False) simp
  qed
qed

lemma setProp_set: "set (setProp obj k v) \<subseteq> insert (k, v) (set obj)"
proof (cases "k \<in> set (map fst obj)")
  case True
  then show ?thesis
    unfolding setProp_def using update_in_place_set [of k v obj] by (simp only: if_True)
next
  case False
  then show ?thesis
    unfolding setProp_def
    by (cases "isArrayIndex k") (simp_all only: if_False if_True insertIndexKey_set, simp_all)
qed

lemma setProp_plain:
  "k \<notin> set (map fst obj) \<Longrightarrow> \<not> isArrayIndex k \<Longrightarrow> setProp obj k v = obj @ [(k, v)]"
  by (simp add: setProp_def)

lemma fromEntries_snoc: "fromEntries (es @ [(k, v)]) = setProp (fromEntries es) k v"
  by (simp add: fromEntries_def)

lemma fromEntries_keys: "set (map fst (fromEntries es)) = set (map fst es)"
proof (induction es rule: rev_induct)
  case Nil
  then show ?case by (simp add: fromEntries_def)
next
  case (snoc e es)
  obtain k v where e: "e = (k, v)" by (cases e)
  show ?case
    unfolding e fromEntries_snoc setProp_keys snoc.IH by simp
qed

lemma fromEntries_distinct: "distinct (map fst (fromEntries es))"
proof (induction es rule: rev_induct)
  case Nil
  then show ?case by (simp add: fromEntries_def)
next
  case (snoc e es)
  then show ?case by (cases e) (simp add: fromEntries_snoc setProp_distinct)
qed

lemma fromEntries_set: "set (fromEntries es) \<subseteq> set es"
proof (induction es rule: rev_induct)
  case Nil
  then show ?case by (simp add: fromEntries_def)
next
  case (snoc e es)
  obtain k v where e: "e = (k, v)" by (cases e)
  show ?case
    using snoc setProp_set [of "fromEntries es" k v] unfolding e fromEntries_snoc by auto
qed

lemma fromEntries_plain:
  assumes "distinct (map fst es)" and "\<forall>k \<in> set (map fst es). \<not> isArrayIndex k"
  shows "fromEntries es = es"
  using assms
proof (induction es rule: rev_induct)
  case Nil
  then show ?case by (simp add: fromEntries_def)
next
  case (snoc e es)
  obtain k v where e: "e = (k, v)" by (cases e)
  from snoc have es: "fromEntries es = es" by simp
  from snoc.prems e have "k \<notin> set (map fst es)" and "\<not> isArrayIndex k" by auto
  then show ?case
    unfolding e fromEntries_snoc es by (rule setProp_plain)
qed

lemma no_key_of_label:
  "label \<notin> labelOf labels ` set (map fst es) \<Longrightarrow>
   filter (\<lambda>(key, msgs). labelOf labels key = label) es = []"
  by (induction es) auto

lemma step2_Cons_own:
  assumes "labelOf labels key \<notin> set Object_prototype_properties"
  shows "step2 labels ((key, msgs) # rest) acc =
     step2 labels rest
       (setProp acc (labelOf labels key)
          ((case map_of acc (labelOf labels key) of None \<Rightarrow> [] | Some ms \<Rightarrow> ms) @ msgs))"
  using assms by (simp add: Let_def split: option.splits)

lemma step2_Cons_inherited:
  assumes "labelOf labels key \<in> set Object_prototype_properties"
    and "map_of acc (labelOf labels key) = None"
  shows "step2 labels ((key, msgs) # rest) acc = None"
  using assms by (simp add: Let_def)

text \<open>
  When no key has a label that names an inherited property, the loop returns: the labels
  of the result, and the messages under each.
\<close>

lemma step2_own:
  assumes "\<forall>key \<in> set (map fst es). labelOf labels key \<notin> set Object_prototype_properties"
  shows "\<exists>res. step2 labels es acc = Some res \<and>
     set (map fst res) = set (map fst acc) \<union> labelOf labels ` set (map fst es) \<and>
     (distinct (map fst acc) \<longrightarrow> distinct (map fst res)) \<and>
     (\<forall>label. map_of res label =
        (if label \<in> labelOf labels ` set (map fst es)
         then Some ((case map_of acc label of None \<Rightarrow> [] | Some ms \<Rightarrow> ms) @
                    concat (map snd (filter (\<lambda>(key, msgs). labelOf labels key = label) es)))
         else map_of acc label))"
  using assms
proof (induction es arbitrary: acc)
  case Nil
  then show ?case by simp
next
  case (Cons e es)
  obtain key msgs where e: "e = (key, msgs)" by (cases e)
  let ?l = "labelOf labels key"
  let ?old = "case map_of acc ?l of None \<Rightarrow> [] | Some ms \<Rightarrow> ms"
  let ?acc' = "setProp acc ?l (?old @ msgs)"
  from Cons.prems e have own: "?l \<notin> set Object_prototype_properties"
    and rest: "\<forall>key \<in> set (map fst es). labelOf labels key \<notin> set Object_prototype_properties"
    by simp_all
  have step: "step2 labels (e # es) acc = step2 labels es ?acc'"
    unfolding e by (rule step2_Cons_own [OF own])
  from Cons.IH [OF rest, of ?acc'] obtain res where ih:
    "step2 labels es ?acc' = Some res \<and>
     set (map fst res) = set (map fst ?acc') \<union> labelOf labels ` set (map fst es) \<and>
     (distinct (map fst ?acc') \<longrightarrow> distinct (map fst res)) \<and>
     (\<forall>label. map_of res label =
        (if label \<in> labelOf labels ` set (map fst es)
         then Some ((case map_of ?acc' label of None \<Rightarrow> [] | Some ms \<Rightarrow> ms) @
                    concat (map snd (filter (\<lambda>(key, msgs). labelOf labels key = label) es)))
         else map_of ?acc' label))" ..
  note res = ih [THEN conjunct1]
  note keys = ih [THEN conjunct2, THEN conjunct1]
  note dist = ih [THEN conjunct2, THEN conjunct2, THEN conjunct1]
  note look = ih [THEN conjunct2, THEN conjunct2, THEN conjunct2, THEN spec]
  have acc': "map_of ?acc' = (map_of acc)(?l \<mapsto> ?old @ msgs)"
    by (rule setProp_map_of)
  have 1: "step2 labels (e # es) acc = Some res"
    by (simp only: step res)
  have 2: "set (map fst res) = set (map fst acc) \<union> labelOf labels ` set (map fst (e # es))"
    unfolding keys setProp_keys e by auto
  have 3: "distinct (map fst acc) \<longrightarrow> distinct (map fst res)"
  proof
    assume "distinct (map fst acc)"
    then have "distinct (map fst ?acc')"
      by (rule setProp_distinct)
    with dist show "distinct (map fst res)"
      by (rule mp)
  qed
  have 4: "map_of res label =
        (if label \<in> labelOf labels ` set (map fst (e # es))
         then Some ((case map_of acc label of None \<Rightarrow> [] | Some ms \<Rightarrow> ms) @
                    concat (map snd (filter (\<lambda>(key, msgs). labelOf labels key = label) (e # es))))
         else map_of acc label)" for label
    unfolding look acc' by (auto simp: e no_key_of_label simp del: set_map)
  show ?case
    by (intro exI [of _ res] conjI allI 1 2 3 4)
qed

subsection \<open>Step 0 against its specification\<close>

lemma Object_entries_or: "Object_entries (js_or v (JObj [])) = Some (children v)"
  by (cases v) (simp_all add: js_or_def children_def)

lemma getProp_defined:
  "doc \<noteq> JUndefined \<Longrightarrow> doc \<noteq> JNull \<Longrightarrow> getProp doc k = Some (getPropOpt doc k)"
  by (cases doc) (simp_all add: getPropOpt_def split: option.splits)

lemma isObject_or: "isObject (js_or p (JObj [])) = (\<not> (truthy p \<and> \<not> isObject p))"
  by (cases p) (simp_all add: js_or_def)

lemma js_or_truthy: "truthy p \<Longrightarrow> js_or p d = p"
  by (simp add: js_or_def)

lemma step0_refines:
  assumes "doc \<noteq> JUndefined" and "doc \<noteq> JNull"
  shows "step0 doc = Some (fromEntries (spec_dotted_entries doc))"
  using assms
  by (simp add: step0_def getProp_defined Object_entries_or isObject_or js_or_truthy
      spec_dotted_entries_def Let_def)

lemma step0_nullish: "step0 JUndefined = None \<and> step0 JNull = None"
  by (simp add: step0_def)

lemma fromEntries_map_of: "map_of (fromEntries es) = map_of (rev es)"
proof (induction es rule: rev_induct)
  case Nil
  then show ?case by (simp add: fromEntries_def)
next
  case (snoc e es)
  obtain k v where e: "e = (k, v)" by (cases e)
  show ?case
    unfolding e fromEntries_snoc setProp_map_of snoc.IH by (simp add: fun_eq_iff)
qed

lemma dotted_not_index:
  "\<forall>k \<in> set (map fst (spec_dotted_entries doc)). \<not> isArrayIndex k"
  by (auto simp: spec_dotted_entries_def isArrayIndex_def isDigit_def)

lemma dotted_not_inherited:
  "\<forall>k \<in> set (map fst (spec_dotted_entries doc)). k \<notin> set Object_prototype_properties"
  by (auto simp: spec_dotted_entries_def Object_prototype_properties_def)

lemma step0_keys_not_index:
  assumes "step0 doc = Some s0"
  shows "distinct (map fst s0) \<and> (\<forall>k \<in> set (map fst s0). \<not> isArrayIndex k)"
proof -
  from assms have "doc \<noteq> JUndefined" "doc \<noteq> JNull"
    using step0_nullish by auto
  then have "s0 = fromEntries (spec_dotted_entries doc)"
    using assms step0_refines by simp
  then show ?thesis
    using dotted_not_index [of doc] by (simp add: fromEntries_distinct fromEntries_keys del: set_map)
qed

lemma step1_of_step0:
  assumes "step0 doc = Some s0"
  shows "step1 s0 = map (\<lambda>(key, value). (key, toErrorMessages value)) s0"
proof -
  let ?es = "map (\<lambda>(key, value). (key, toErrorMessages value)) s0"
  have keys: "map fst ?es = map fst s0"
    by (induction s0) auto
  have "distinct (map fst ?es)" and "\<forall>k \<in> set (map fst ?es). \<not> isArrayIndex k"
    unfolding keys using step0_keys_not_index [OF assms] by blast+
  then show ?thesis
    unfolding step1_def by (rule fromEntries_plain)
qed

subsection \<open>Grouping by label\<close>

lemmas aggregator_eval =
  toLabelledErrorMessages_def step0_def step1_def fromEntries_def setProp_def isArrayIndex_def
  isDigit_def js_or_def getPropOpt_def toErrorMessages_def labelOf_def defaultLabels_def
  i18next_t_def digit_char_def Object_prototype_properties_def Let_def

lemma constructor_labels_default: "constructor_labels [] = defaultLabels"
  by (simp add: constructor_labels_def defaultLabels_def fromEntries_def setProp_def
      isArrayIndex_def isDigit_def i18next_t_def)

lemma filter_label_map:
  "filter (\<lambda>(key, msgs). labelOf labels key = label) (map (\<lambda>(key, value). (key, f value)) s0) =
   map (\<lambda>(key, value). (key, f value)) (filter (\<lambda>(key, value). labelOf labels key = label) s0)"
  by (induction s0) auto

lemma labelOf_absent: "map_of labels key = None \<Longrightarrow> labelOf labels key = ''Unknown field''"
  by (simp add: labelOf_def)

lemma labelOf_in_table:
  "labelOf labels key = ''Unknown field'' \<or> labelOf labels key \<in> set (map snd labels)"
proof (cases "map_of labels key")
  case None
  then show ?thesis by (simp add: labelOf_def)
next
  case (Some l)
  then have "(key, l) \<in> set labels" by (rule map_of_SomeD)
  then have "l \<in> set (map snd labels)" by force
  with Some show ?thesis by (simp add: labelOf_def)
qed

lemma Unknown_field_own: "''Unknown field'' \<notin> set Object_prototype_properties"
  by (simp add: Object_prototype_properties_def)

lemma own_labels:
  assumes "set (map snd labels) \<inter> set Object_prototype_properties = {}"
  shows "labelOf labels key \<notin> set Object_prototype_properties"
  using labelOf_in_table [of labels key] Unknown_field_own assms by auto

lemma defaultLabels_own: "set (map snd defaultLabels) \<inter> set Object_prototype_properties = {}"
  by (simp add: defaultLabels_def Object_prototype_properties_def i18next_t_def)

text \<open>
  For every document that is not \<open>null\<close> or \<open>undefined\<close> and every label table that gives
  its keys no inherited name: each dotted key goes to its label, a key absent from the
  table to \<open>Unknown field\<close>; each label occurs once, and the messages under a label are
  those of the keys with that label, concatenated in the order of the keys.
\<close>

lemma toLabelledErrorMessages_groups:
  assumes "step0 doc = Some s0"
    and "\<forall>key \<in> set (map fst s0). labelOf labels key \<notin> set Object_prototype_properties"
  shows "\<exists>result. toLabelledErrorMessages labels doc = Some result \<and>
           distinct (map fst result) \<and>
           set (map fst result) = labelOf labels ` set (map fst s0) \<and>
           (\<forall>label \<in> set (map fst result).
              map_of result label =
                Some (concat (map (\<lambda>(key, value). toErrorMessages value)
                       (filter (\<lambda>(key, value). labelOf labels key = label) s0)))) \<and>
           (\<forall>(key, value) \<in> set s0.
              \<exists>ms. map_of result (labelOf labels key) = Some ms \<and>
                   set (toErrorMessages value) \<subseteq> set ms)"
proof -
  let ?s1 = "map (\<lambda>(key, value). (key, toErrorMessages value)) s0"
  have keys1: "map fst ?s1 = map fst s0"
    by (induction s0) auto
  have own: "\<forall>key \<in> set (map fst ?s1). labelOf labels key \<notin> set Object_prototype_properties"
    unfolding keys1 by (rule assms(2))
  let ?acc = "[] :: (string \<times> string list) list"
  from step2_own [OF own, of ?acc] obtain result where all:
    "step2 labels ?s1 ?acc = Some result \<and>
     set (map fst result) = set (map fst ?acc) \<union> labelOf labels ` set (map fst ?s1) \<and>
     (distinct (map fst ?acc) \<longrightarrow> distinct (map fst result)) \<and>
     (\<forall>label. map_of result label =
        (if label \<in> labelOf labels ` set (map fst ?s1)
         then Some ((case map_of ?acc label of None \<Rightarrow> [] | Some ms \<Rightarrow> ms) @
                    concat (map snd (filter (\<lambda>(key, msgs). labelOf labels key = label) ?s1)))
         else map_of ?acc label))" ..
  note res = all [THEN conjunct1]
  note k0 = all [THEN conjunct2, THEN conjunct1]
  note d0 = all [THEN conjunct2, THEN conjunct2, THEN conjunct1]
  note l0 = all [THEN conjunct2, THEN conjunct2, THEN conjunct2, THEN spec]
  have run: "toLabelledErrorMessages labels doc = Some result"
    using assms(1) res by (simp add: toLabelledErrorMessages_def step1_of_step0 [OF assms(1)])
  have d: "distinct (map fst result)"
    using d0 by simp
  have k: "set (map fst result) = labelOf labels ` set (map fst s0)"
    using k0 unfolding keys1 by simp
  have look: "map_of result label =
      Some (concat (map (\<lambda>(key, value). toErrorMessages value)
             (filter (\<lambda>(key, value). labelOf labels key = label) s0)))"
    if "label \<in> set (map fst result)" for label
  proof -
    from that have "label \<in> labelOf labels ` set (map fst ?s1)"
      unfolding k keys1 .
    then have "map_of result label =
      Some (concat (map snd (filter (\<lambda>(key, msgs). labelOf labels key = label) ?s1)))"
      unfolding l0 by simp
    also have "map snd (filter (\<lambda>(key, msgs). labelOf labels key = label) ?s1) =
      map (\<lambda>(key, value). toErrorMessages value)
        (filter (\<lambda>(key, value). labelOf labels key = label) s0)"
      unfolding filter_label_map by (simp add: case_prod_unfold comp_def)
    finally show ?thesis .
  qed
  have kept: "\<exists>ms. map_of result (labelOf labels key) = Some ms \<and>
                   set (toErrorMessages v) \<subseteq> set ms"
    if "(key, v) \<in> set s0" for key v
  proof -
    from that have "labelOf labels key \<in> set (map fst result)"
      unfolding k by force
    from look [OF this] that show ?thesis by force
  qed
  from run d k look kept show ?thesis by blast
qed

text \<open>
  Claim C5. The claim, like the comment of step 2, has \<open>metadata.title\<close> and
  \<open>metadata.additional_titles\<close> share the label \<open>Title\<close>. The code on a document with
  both keys and the default table: the table gives the second key the label
  \<open>Additional titles\<close>, so the two messages stay under two labels. And with the label
  \<open>constructor\<close> given to \<open>metadata.title\<close>, the loop of step 2 throws a \<open>TypeError\<close>
  instead of keeping the message.
\<close>

theorem default_titles_do_not_merge:
  "labelOf defaultLabels ''metadata.title'' = ''Title'' \<and>
   labelOf defaultLabels ''metadata.additional_titles'' = ''Additional titles'' \<and>
   toLabelledErrorMessages defaultLabels
     (JObj [(''metadata'', JObj [(''title'', JArr [JStr ''x'']),
                                 (''additional_titles'', JArr [JStr ''y''])])]) =
     Some [(''Title'', [''x'']), (''Additional titles'', [''y''])] \<and>
   toLabelledErrorMessages defaultLabels
     (JObj [(''metadata'', JObj [(''title'', JArr [JStr ''x'']),
                                 (''additional_titles'', JArr [JStr ''y''])])]) \<noteq>
     Some [(''Title'', [''x'', ''y''])] \<and>
   toLabelledErrorMessages (constructor_labels [(''metadata.title'', ''constructor'')])
     (JObj [(''metadata'', JObj [(''title'', JArr [JStr ''x''])])]) = None"
proof -
  have labels: "constructor_labels [(''metadata.title'', ''constructor'')] =
    defaultLabels[2 := (''metadata.title'', ''constructor'')]"
    by (simp add: constructor_labels_def defaultLabels_def fromEntries_def setProp_def
        isArrayIndex_def isDigit_def i18next_t_def)
  have thrown: "toLabelledErrorMessages (defaultLabels[2 := (''metadata.title'', ''constructor'')])
     (JObj [(''metadata'', JObj [(''title'', JArr [JStr ''x''])])]) = None"
    by (simp add: aggregator_eval)
  have titles: "labelOf defaultLabels ''metadata.title'' = ''Title''"
    "labelOf defaultLabels ''metadata.additional_titles'' = ''Additional titles''"
    by (simp_all add: labelOf_def defaultLabels_def i18next_t_def)
  have apart: "toLabelledErrorMessages defaultLabels
     (JObj [(''metadata'', JObj [(''title'', JArr [JStr ''x'']),
                                 (''additional_titles'', JArr [JStr ''y''])])]) =
     Some [(''Title'', [''x'']), (''Additional titles'', [''y''])]"
    by (simp add: aggregator_eval)
  from titles apart thrown show ?thesis
    unfolding labels by simp
qed

subsection \<open>Flattening and the feedback message\<close>

lemma children_absent: "map_of kvs name = None \<Longrightarrow> children (getPropOpt (JObj kvs) name) = []"
  by (simp add: children_def getPropOpt_def js_or_def)

lemma children_falsy: "\<not> truthy v \<Longrightarrow> children v = []"
  by (simp add: children_def js_or_def)

lemma pids_primitive_keys:
  assumes "truthy (getPropOpt doc ''pids'')" and "\<not> isObject (getPropOpt doc ''pids'')"
  shows "map_of (rev (spec_dotted_entries doc)) ''pids'' = Some (getPropOpt doc ''pids'') \<and>
         (\<forall>key \<in> set (map fst (spec_dotted_entries doc)). take 5 key \<noteq> ''pids.'')"
  using assms by (auto simp: spec_dotted_entries_def)

text \<open>
  An array is an object for lodash \<open>isObject\<close>, so an array under \<open>pids\<close> is expanded by
  index and its message lands under \<open>Unknown field\<close>; a \<open>null\<close> under \<open>pids\<close> gives no key.
\<close>

theorem pids_array_is_expanded:
  "step0 (JObj [(''pids'', JArr [JStr ''Invalid DOI''])]) = Some [(''pids.0'', JStr ''Invalid DOI'')] \<and>
   toLabelledErrorMessages defaultLabels (JObj [(''pids'', JArr [JStr ''Invalid DOI''])]) =
     Some [(''Unknown field'', [''Invalid DOI''])] \<and>
   step0 (JObj [(''pids'', JArr [JStr ''Invalid DOI''])]) \<noteq>
     Some [(''pids'', JArr [JStr ''Invalid DOI''])] \<and>
   step0 (JObj [(''pids'', JNull)]) = Some [] \<and>
   step0 (JObj [(''pids'', JNull)]) \<noteq> Some [(''pids'', JNull)]"
  by (simp add: aggregator_eval)

text \<open>
  Claim C4, as amended. For every document that is not \<open>null\<close> or \<open>undefined\<close>, step 0 of
  \<open>toLabelledErrorMessages\<close> yields the dotted entries of the four sections \<open>metadata\<close>,
  \<open>files\<close>, \<open>access.embargo\<close> and \<open>pids\<close> and nothing else: the same keys, no entry
  that is not one of them, and the very list when the keys are distinct. A section that
  is absent, or whose value is falsy, has no children. When the value of \<open>pids\<close> is a
  truthy primitive (a non-empty string, a number other than zero, \<open>true\<close>) the entry is
  kept under the single key \<open>pids\<close> and no key begins with \<open>pids.\<close>, so the document
  \<open>{pids: "Invalid DOI"}\<close> gives the single label \<open>PIDS\<close> with \<open>["Invalid DOI"]\<close>.
\<close>

theorem step0_flattens_four_sections:
  assumes "doc \<noteq> JUndefined" and "doc \<noteq> JNull"
  shows "(\<exists>s0. step0 doc = Some s0 \<and>
            set (map fst s0) = set (map fst (spec_dotted_entries doc)) \<and>
            set s0 \<subseteq> set (spec_dotted_entries doc) \<and>
            (distinct (map fst (spec_dotted_entries doc)) \<longrightarrow> s0 = spec_dotted_entries doc) \<and>
            (truthy (getPropOpt doc ''pids'') \<and> \<not> isObject (getPropOpt doc ''pids'') \<longrightarrow>
               map_of s0 ''pids'' = Some (getPropOpt doc ''pids'') \<and>
               (\<forall>key \<in> set (map fst s0). take 5 key \<noteq> ''pids.''))) \<and>
         (\<forall>kvs name. map_of kvs name = None \<longrightarrow> children (getPropOpt (JObj kvs) name) = []) \<and>
         (\<forall>v. \<not> truthy v \<longrightarrow> children v = []) \<and>
         toLabelledErrorMessages defaultLabels (JObj [(''pids'', JStr ''Invalid DOI'')]) =
           Some [(''PIDS'', [''Invalid DOI''])]"
proof -
  let ?es = "spec_dotted_entries doc"
  have run: "step0 doc = Some (fromEntries ?es)"
    using assms by (rule step0_refines)
  have keys: "set (map fst (fromEntries ?es)) = set (map fst ?es)"
    by (rule fromEntries_keys)
  have sub: "set (fromEntries ?es) \<subseteq> set ?es"
    by (rule fromEntries_set)
  have same: "fromEntries ?es = ?es" if "distinct (map fst ?es)"
    using that dotted_not_index by (rule fromEntries_plain)
  have pids: "map_of (fromEntries ?es) ''pids'' = Some (getPropOpt doc ''pids'') \<and>
              (\<forall>key \<in> set (map fst (fromEntries ?es)). take 5 key \<noteq> ''pids.'')"
    if "truthy (getPropOpt doc ''pids'') \<and> \<not> isObject (getPropOpt doc ''pids'')"
    unfolding fromEntries_map_of keys using that pids_primitive_keys by blast
  have ex: "toLabelledErrorMessages defaultLabels (JObj [(''pids'', JStr ''Invalid DOI'')]) =
           Some [(''PIDS'', [''Invalid DOI''])]"
    by (simp add: aggregator_eval)
  from run keys sub same pids children_absent children_falsy ex show ?thesis by blast
qed

theorem step0_flattens_four_sections_witness:
  "step0 (JObj [(''custom'', JObj [(''x'', JStr ''bad'')]),
                (''files'', JObj [(''enabled'', JStr ''Missing'')]),
                (''pids'', JNum 7)]) =
     Some [(''files.enabled'', JStr ''Missing''), (''pids'', JNum 7)]"
  using step0_flattens_four_sections [of "JObj [(''custom'', JObj [(''x'', JStr ''bad'')]),
                      (''files'', JObj [(''enabled'', JStr ''Missing'')]),
                      (''pids'', JNum 7)]"]
  by (simp add: aggregator_eval)

lemma ACTIONS_message_nonempty: "map_of ACTIONS a = Some (feedback, msg) \<Longrightarrow> msg \<noteq> []"
  by (cases a) (auto simp: ACTIONS_def i18next_t_def)

lemma ACTIONS_keys:
  "set (map fst ACTIONS) =
     {DRAFT_SAVE_SUCCEEDED, DRAFT_HAS_VALIDATION_ERRORS, DRAFT_SAVE_FAILED, DRAFT_PUBLISH_FAILED,
      DRAFT_SUBMIT_REVIEW_FAILED, DRAFT_DELETE_FAILED, DRAFT_PREVIEW_FAILED, RESERVE_PID_FAILED,
      DISCARD_PID_FAILED, FILE_UPLOAD_SAVE_DRAFT_FAILED, FILE_IMPORT_FAILED}"
  by (simp add: ACTIONS_def)

lemma toLabelledErrorMessages_total:
  assumes "set (map snd labels) \<inter> set Object_prototype_properties = {}"
  shows "\<exists>lm. toLabelledErrorMessages labels (js_or e (JObj [])) = Some lm"
proof -
  have "js_or e (JObj []) \<noteq> JUndefined" "js_or e (JObj []) \<noteq> JNull"
    by (cases e; simp add: js_or_def)+
  then obtain s0 where "step0 (js_or e (JObj [])) = Some s0"
    using step0_refines by blast
  moreover have "\<forall>key \<in> set (map fst s0). labelOf labels key \<notin> set Object_prototype_properties"
    using own_labels [OF assms] by blast
  ultimately show ?thesis
    using toLabelledErrorMessages_groups by blast
qed

lemma render_absent: "render labels None e = Inr None"
  by (simp add: render_def get_ACTIONS_def)

lemma render_not_listed:
  assumes "a \<notin> set (map fst ACTIONS)"
  shows "render labels (Some a) e = Inr None"
proof -
  from assms have "map_of ACTIONS a = None"
    by (simp add: map_of_eq_None_iff)
  then show ?thesis
    by (simp add: render_def get_ACTIONS_def)
qed

lemma render_listed:
  assumes "map_of ACTIONS a = Some (feedback, msg)"
    and "toLabelledErrorMessages labels (js_or e (JObj [])) = Some lm"
  shows "render labels (Some a) e =
     Inr (Some \<lparr>positive = (feedback = ''positive''), warning = (feedback = ''warning''),
                negative = (feedback = ''negative''), message = msg,
                message_list =
                  (if lm = [] then None
                   else Some (map (\<lambda>(label, messages). (label, renderErrorMessages messages)) lm))\<rparr>)"
  using assms ACTIONS_message_nonempty [OF assms(1)]
  by (simp add: render_def get_ACTIONS_def Let_def)

text \<open>
  \<open>RESERVE_PID_SUCCEEDED\<close> and \<open>DRAFT_SAVE_STARTED\<close> are action states of the store, and
  the component renders nothing for them.
\<close>

theorem render_hides_unlisted_state:
  "render defaultLabels (Some RESERVE_PID_SUCCEEDED) (JObj []) = Inr None \<and>
   render defaultLabels (Some DRAFT_SAVE_STARTED) (JObj []) = Inr None"
  by (simp add: render_def get_ACTIONS_def ACTIONS_def)

text \<open>
  Claim C8, as amended. \<open>render\<close> renders nothing when the action state is absent and
  when it is not one of the eleven states of the \<open>ACTIONS\<close> table. With a label table
  none of whose labels names a property of \<open>Object.prototype\<close>, as the default table,
  \<open>render\<close> never throws, and for each of the eleven states it renders the message of
  that state, which is not empty, with the flag of its feedback, and with the list of
  the labelled error messages when that list is not empty.
\<close>

theorem render_shows_listed_states:
  "render labels None e = Inr None \<and>
   (\<forall>a. a \<notin> {DRAFT_SAVE_SUCCEEDED, DRAFT_HAS_VALIDATION_ERRORS, DRAFT_SAVE_FAILED,
             DRAFT_PUBLISH_FAILED, DRAFT_SUBMIT_REVIEW_FAILED, DRAFT_DELETE_FAILED,
             DRAFT_PREVIEW_FAILED, RESERVE_PID_FAILED, DISCARD_PID_FAILED,
             FILE_UPLOAD_SAVE_DRAFT_FAILED, FILE_IMPORT_FAILED} \<longrightarrow>
        render labels (Some a) e = Inr None) \<and>
   (set (map snd labels) \<inter> set Object_prototype_properties = {} \<longrightarrow>
      (\<exists>out. render labels actionState e = Inr out) \<and>
      (\<forall>a feedback msg. map_of ACTIONS a = Some (feedback, msg) \<longrightarrow>
         msg \<noteq> [] \<and>
         (\<exists>lm. toLabelledErrorMessages labels (js_or e (JObj [])) = Some lm \<and>
            render labels (Some a) e =
              Inr (Some \<lparr>positive = (feedback = ''positive''), warning = (feedback = ''warning''),
                         negative = (feedback = ''negative''), message = msg,
                         message_list =
                           (if lm = [] then None
                            else Some (map (\<lambda>(label, messages).
                                   (label, renderErrorMessages messages)) lm))\<rparr>))))"
proof -
  have hidden: "render labels (Some a) e = Inr None"
    if "a \<notin> {DRAFT_SAVE_SUCCEEDED, DRAFT_HAS_VALIDATION_ERRORS, DRAFT_SAVE_FAILED,
             DRAFT_PUBLISH_FAILED, DRAFT_SUBMIT_REVIEW_FAILED, DRAFT_DELETE_FAILED,
             DRAFT_PREVIEW_FAILED, RESERVE_PID_FAILED, DISCARD_PID_FAILED,
             FILE_UPLOAD_SAVE_DRAFT_FAILED, FILE_IMPORT_FAILED}" for a
    using that unfolding ACTIONS_keys [symmetric] by (rule render_not_listed)
  have own: "(\<exists>out. render labels actionState e = Inr out) \<and>
      (\<forall>a feedback msg. map_of ACTIONS a = Some (feedback, msg) \<longrightarrow>
         msg \<noteq> [] \<and>
         (\<exists>lm. toLabelledErrorMessages labels (js_or e (JObj [])) = Some lm \<and>
            render labels (Some a) e =
              Inr (Some \<lparr>positive = (feedback = ''positive''), warning = (feedback = ''warning''),
                         negative = (feedback = ''negative''), message = msg,
                         message_list =
                           (if lm = [] then None
                            else Some (map (\<lambda>(label, messages).
                                   (label, renderErrorMessages messages)) lm))\<rparr>)))"
    if safe: "set (map snd labels) \<inter> set Object_prototype_properties = {}"
  proof -
    obtain lm where lm: "toLabelledErrorMessages labels (js_or e (JObj [])) = Some lm"
      using toLabelledErrorMessages_total [OF safe] by blast
    have total: "\<exists>out. render labels actionState e = Inr out"
    proof (cases actionState)
      case None
      then show ?thesis by (simp add: render_absent)
    next
      case (Some a)
      show ?thesis
      proof (cases "map_of ACTIONS a")
        case None
        then have "a \<notin> set (map fst ACTIONS)"
          by (simp add: map_of_eq_None_iff)
        with Some show ?thesis by (simp add: render_not_listed)
      next
        case (Some fm)
        then obtain feedback msg where "map_of ACTIONS a = Some (feedback, msg)"
          by (cases fm) simp
        from render_listed [OF this lm] \<open>actionState = Some a\<close> show ?thesis by simp
      qed
    qed
    have shown: "msg \<noteq> [] \<and>
        (\<exists>lm. toLabelledErrorMessages labels (js_or e (JObj [])) = Some lm \<and>
           render labels (Some a) e =
             Inr (Some \<lparr>positive = (feedback = ''positive''), warning = (feedback = ''warning''),
                        negative = (feedback = ''negative''), message = msg,
                        message_list =
                          (if lm = [] then None
                           else Some (map (\<lambda>(label, messages).
                                  (label, renderErrorMessages messages)) lm))\<rparr>))"
      if "map_of ACTIONS a = Some (feedback, msg)" for a feedback msg
      using ACTIONS_message_nonempty [OF that] render_listed [OF that lm] lm by blast
    from total shown show ?thesis by blast
  qed
  from render_absent hidden own show ?thesis by blast
qed

theorem render_shows_listed_states_witness:
  "set (map snd defaultLabels) \<inter> set Object_prototype_properties = {} \<and>
   map_of ACTIONS DRAFT_HAS_VALIDATION_ERRORS =
     Some (''warning'', ''Record saved with validation errors:'') \<and>
   render defaultLabels (Some DRAFT_HAS_VALIDATION_ERRORS)
     (JObj [(''metadata'', JObj [(''title'', JArr [JStr ''Missing data for required field.''])])]) =
     Inr (Some \<lparr>positive = False, warning = True, negative = False,
                message = ''Record saved with validation errors:'',
                message_list = Some [(''Title'', Text ''Missing data for required field.'')]\<rparr>) \<and>
   render defaultLabels (Some DRAFT_SAVE_STARTED) JUndefined = Inr None"
proof -
  let ?doc = "JObj [(''metadata'', JObj [(''title'', JArr [JStr ''Missing data for required field.''])])]"
  have listed: "map_of ACTIONS DRAFT_HAS_VALIDATION_ERRORS =
     Some (''warning'', ''Record saved with validation errors:'')"
    by (simp add: ACTIONS_def i18next_t_def)
  have lm: "toLabelledErrorMessages defaultLabels (js_or ?doc (JObj [])) =
     Some [(''Title'', [''Missing data for required field.''])]"
    by (simp add: aggregator_eval)
  have one: "renderErrorMessages [''Missing data for required field.''] =
     Text ''Missing data for required field.''"
    by (simp add: renderErrorMessages_def new_Set_def Set_add_def)
  from render_shows_listed_states [of defaultLabels ?doc "Some DRAFT_HAS_VALIDATION_ERRORS"]
    listed defaultLabels_own
  have "\<exists>lm. toLabelledErrorMessages defaultLabels (js_or ?doc (JObj [])) = Some lm \<and>
         render defaultLabels (Some DRAFT_HAS_VALIDATION_ERRORS) ?doc =
           Inr (Some \<lparr>positive = (''warning'' = ''positive''), warning = (''warning'' = ''warning''),
                      negative = (''warning'' = ''negative''),
                      message = ''Record saved with validation errors:'',
                      message_list =
                        (if lm = [] then None
                         else Some (map (\<lambda>(label, messages).
                                (label, renderErrorMessages messages)) lm))\<rparr>)"
    by blast
  then have shown: "render defaultLabels (Some DRAFT_HAS_VALIDATION_ERRORS) ?doc =
     Inr (Some \<lparr>positive = False, warning = True, negative = False,
                message = ''Record saved with validation errors:'',
                message_list = Some [(''Title'', Text ''Missing data for required field.'')]\<rparr>)"
    unfolding lm by (simp add: one)
  from render_shows_listed_states [of defaultLabels JUndefined "Some DRAFT_SAVE_STARTED"]
  have hidden: "render defaultLabels (Some DRAFT_SAVE_STARTED) JUndefined = Inr None"
    by simp
  from defaultLabels_own listed shown hidden show ?thesis by simp
qed

end
